theory Spec2Isabelle
  imports Main "HOL-Library.Char_ord" "HOL-Library.List_Lexorder"
    "HOL-Library.Multiset" "HOL-Library.AList"
begin

section \<open>Results of fallible code\<close>

text \<open>
  The store (\<^verbatim>\<open>FilePlaidItemStore\<close>) and the Plaid gateway functions of
  \<^verbatim>\<open>src/plaid\<close> are embedded as HOL functions. A \<^verbatim>\<open>throw\<close> (or a rejected
  promise) is a value: \<open>Inl e\<close> of a sum type or, where a third result is possible,
  \<open>Throws e\<close>. A \<^verbatim>\<open>try/catch\<close> is a case distinction on that value.

  The store's map is typed \<^verbatim>\<open>Map<string, PlaidItem>\<close>, but \<^verbatim>\<open>load\<close> fills it
  with a type assertion (\<^verbatim>\<open>JSON.parse(data) as Record<string, PlaidItem>\<close>) that checks
  nothing at run time. The embedding follows the types: the in-memory values are records.
  Where a file holds JSON that is not a \<^verbatim>\<open>Record<string, PlaidItem>\<close>, or JSON
  with a string escape denoting a code unit above \<open>0xFF\<close> (which \<^typ>\<open>char\<close>
  cannot hold), the typed embedding does not say what the code does: that is the third
  result, \<open>Untyped\<close>, which is neither a return nor a throw.
\<close>

datatype error = SyntaxError | TypeError | SystemError string

datatype 'a outcome = Returns 'a | Throws error | Untyped

section \<open>JSON text\<close>

text \<open>
  \<^verbatim>\<open>JSON.stringify(data, null, 2)\<close> and \<^verbatim>\<open>JSON.parse\<close> belong to the JavaScript
  runtime, not to the repository; they are modelled after ECMA-262 (sections
  \<^emph>\<open>SerializeJSONProperty\<close>, \<^emph>\<open>QuoteJSONString\<close> and the JSON grammar) on 8-bit
  characters. A number is kept as its lexeme. The order in which an object enumerates
  integer-like keys (ascending, before all other keys) is not modelled: an object is the
  list of its properties in creation order, and no statement below depends on the order
  of the items of the store.
\<close>

datatype json = JNull | JBool bool | JNum string | JStr string
  | JArr "json list" | JObj "(string \<times> json) list"

definition hex_digit :: "nat \<Rightarrow> char" where
  "hex_digit n = (if n < 10 then char_of (48 + n) else char_of (87 + n))"

definition quote_char :: "char \<Rightarrow> string" where
  "quote_char c =
     (if c = CHR 0x08 then [CHR 0x5C, CHR ''b'']
      else if c = CHR 0x09 then [CHR 0x5C, CHR ''t'']
      else if c = CHR 0x0A then [CHR 0x5C, CHR ''n'']
      else if c = CHR 0x0C then [CHR 0x5C, CHR ''f'']
      else if c = CHR 0x0D then [CHR 0x5C, CHR ''r'']
      else if c = CHR 0x22 then [CHR 0x5C, CHR 0x22]
      else if c = CHR 0x5C then [CHR 0x5C, CHR 0x5C]
      else if (of_char c :: nat) < 32
        then [CHR 0x5C, CHR ''u'', CHR ''0'', CHR ''0'',
              hex_digit (of_char c div 16), hex_digit (of_char c mod 16)]
      else [c])"

definition QuoteJSONString :: "string \<Rightarrow> string" where
  "QuoteJSONString s = CHR 0x22 # concat (map quote_char s) @ [CHR 0x22]"

fun join_lines :: "string list \<Rightarrow> string" where
  "join_lines [] = []"
| "join_lines [x] = x"
| "join_lines (x # y # ys) = x @ CHR '','' # CHR 0x0A # join_lines (y # ys)"

fun SerializeJSON :: "nat \<Rightarrow> json \<Rightarrow> string" where
  "SerializeJSON ind JNull = ''null''"
| "SerializeJSON ind (JBool b) = (if b then ''true'' else ''false'')"
| "SerializeJSON ind (JNum n) = n"
| "SerializeJSON ind (JStr s) = QuoteJSONString s"
| "SerializeJSON ind (JArr vs) =
     (if vs = [] then ''[]''
      else CHR ''['' # CHR 0x0A #
        join_lines (map (\<lambda>v. replicate (ind + 2) CHR '' '' @ SerializeJSON (ind + 2) v) vs)
        @ CHR 0x0A # replicate ind CHR '' '' @ '']'')"
| "SerializeJSON ind (JObj ps) =
     (if ps = [] then ''{}''
      else CHR ''{'' # CHR 0x0A #
        join_lines (map (\<lambda>(k, v). replicate (ind + 2) CHR '' '' @ QuoteJSONString k @ '': ''
                           @ SerializeJSON (ind + 2) v) ps)
        @ CHR 0x0A # replicate ind CHR '' '' @ ''}'')"

definition JSON_stringify :: "json \<Rightarrow> string" where
  "JSON_stringify v = SerializeJSON 0 v"

definition hex_value :: "char \<Rightarrow> nat option" where
  "hex_value c =
     (let n = (of_char c :: nat) in
      if 48 \<le> n \<and> n \<le> 57 then Some (n - 48)
      else if 97 \<le> n \<and> n \<le> 102 then Some (n - 87)
      else if 65 \<le> n \<and> n \<le> 70 then Some (n - 55)
      else None)"

definition unescape :: "char \<Rightarrow> char option" where
  "unescape e =
     (if e = CHR 0x22 then Some (CHR 0x22)
      else if e = CHR 0x5C then Some (CHR 0x5C)
      else if e = CHR ''/'' then Some (CHR ''/'')
      else if e = CHR ''b'' then Some (CHR 0x08)
      else if e = CHR ''f'' then Some (CHR 0x0C)
      else if e = CHR ''n'' then Some (CHR 0x0A)
      else if e = CHR ''r'' then Some (CHR 0x0D)
      else if e = CHR ''t'' then Some (CHR 0x09)
      else None)"

definition code_unit :: "char \<Rightarrow> char \<Rightarrow> char \<Rightarrow> char \<Rightarrow> nat option" where
  "code_unit a b c d =
     (case (hex_value a, hex_value b, hex_value c, hex_value d) of
        (Some i, Some j, Some k, Some l) \<Rightarrow> Some (((i * 16 + j) * 16 + k) * 16 + l)
      | _ \<Rightarrow> None)"

text \<open>
  The characters of a string literal after its opening quote, whether an escape in it
  denotes a code unit above \<open>0xFF\<close> (which is then left out of the characters), and
  the text after its closing quote.
\<close>

definition prepend :: "char \<Rightarrow> error + string \<times> bool \<times> string \<Rightarrow> error + string \<times> bool \<times> string" where
  "prepend c r = (case r of Inr (s, wide, rest) \<Rightarrow> Inr (c # s, wide, rest) | Inl e \<Rightarrow> Inl e)"

definition widen :: "error + string \<times> bool \<times> string \<Rightarrow> error + string \<times> bool \<times> string" where
  "widen r = (case r of Inr (s, wide, rest) \<Rightarrow> Inr (s, True, rest) | Inl e \<Rightarrow> Inl e)"

fun scan_string :: "string \<Rightarrow> error + string \<times> bool \<times> string" where
  "scan_string [] = Inl SyntaxError"
| "scan_string (c # cs) =
     (if c = CHR 0x22 then Inr ([], False, cs)
      else if c = CHR 0x5C then
        (case cs of
           [] \<Rightarrow> Inl SyntaxError
         | e # r \<Rightarrow>
            (if e = CHR ''u'' then
               (case r of
                  h1 # h2 # h3 # h4 # r' \<Rightarrow>
                    (case code_unit h1 h2 h3 h4 of
                       None \<Rightarrow> Inl SyntaxError
                     | Some n \<Rightarrow> if n < 256 then prepend (char_of n) (scan_string r')
                                else widen (scan_string r'))
                | _ \<Rightarrow> Inl SyntaxError)
             else
               (case unescape e of
                  None \<Rightarrow> Inl SyntaxError
                | Some x \<Rightarrow> prepend x (scan_string r))))
      else if (of_char c :: nat) < 32 then Inl SyntaxError
      else prepend c (scan_string cs))"

definition is_digit :: "char \<Rightarrow> bool" where
  "is_digit c = (c \<in> set ''0123456789'')"

definition scan_exponent :: "string \<Rightarrow> string \<Rightarrow> (string \<times> string) option" where
  "scan_exponent acc s =
     (case s of
        e # r \<Rightarrow>
          (if e = CHR ''e'' \<or> e = CHR ''E'' then
             (let sg = (case r of x # _ \<Rightarrow> if x = CHR ''+'' \<or> x = CHR ''-'' then [x] else []
                        | [] \<Rightarrow> []);
                  r2 = drop (length sg) r;
                  ds = takeWhile is_digit r2
              in if ds = [] then None
                 else Some (acc @ e # sg @ ds, dropWhile is_digit r2))
           else Some (acc, s))
      | [] \<Rightarrow> Some (acc, s))"

definition scan_fraction :: "string \<Rightarrow> string \<Rightarrow> (string \<times> string) option" where
  "scan_fraction acc s =
     (case s of
        p # r \<Rightarrow>
          (if p = CHR ''.'' then
             (let ds = takeWhile is_digit r
              in if ds = [] then None
                 else scan_exponent (acc @ p # ds) (dropWhile is_digit r))
           else scan_exponent acc s)
      | [] \<Rightarrow> scan_exponent acc s)"

definition scan_number :: "string \<Rightarrow> (string \<times> string) option" where
  "scan_number s =
     (let sg = (case s of x # _ \<Rightarrow> if x = CHR ''-'' then [x] else [] | [] \<Rightarrow> []);
          s1 = drop (length sg) s
      in case s1 of
           [] \<Rightarrow> None
         | d # r \<Rightarrow>
            (if d = CHR ''0'' then scan_fraction (sg @ [d]) r
             else if is_digit d then
               scan_fraction (sg @ takeWhile is_digit s1) (dropWhile is_digit s1)
             else None))"

datatype token = TLBrace | TRBrace | TLBrack | TRBrack | TColon | TComma
  | TString string | TNumber string | TLiteral json

text \<open>The tokens of a text, and whether one of its strings has a code unit above
  \<open>0xFF\<close>.\<close>

definition emit :: "token \<Rightarrow> error + token list \<times> bool \<Rightarrow> error + token list \<times> bool" where
  "emit t r = (case r of Inr (ts, wide) \<Rightarrow> Inr (t # ts, wide) | Inl e \<Rightarrow> Inl e)"

definition mark :: "bool \<Rightarrow> error + token list \<times> bool \<Rightarrow> error + token list \<times> bool" where
  "mark wide r = (case r of Inr (ts, w) \<Rightarrow> Inr (ts, wide \<or> w) | Inl e \<Rightarrow> Inl e)"

definition is_ws :: "char \<Rightarrow> bool" where
  "is_ws c = (c = CHR '' '' \<or> c = CHR 0x09 \<or> c = CHR 0x0A \<or> c = CHR 0x0D)"

lemma prepend_Inr:
  "prepend c r = Inr (s, wide, rest) \<Longrightarrow> \<exists>s'. r = Inr (s', wide, rest)"
  by (auto simp: prepend_def split: sum.splits)

lemma widen_Inr:
  "widen r = Inr (s, wide, rest) \<Longrightarrow> \<exists>s' w. r = Inr (s', w, rest)"
  by (auto simp: widen_def split: sum.splits)

lemma scan_string_length:
  "scan_string cs = Inr (s, wide, rest) \<Longrightarrow> length rest < length cs"
proof (induction cs arbitrary: s wide rule: scan_string.induct)
  case 1
  then show ?case by simp
next
  case (2 c cs)
  show ?case
  proof (cases "c = CHR 0x22")
    case True
    with "2.prems" show ?thesis by simp
  next
    case nq: False
    show ?thesis
    proof (cases "c = CHR 0x5C")
      case False
      with nq "2.prems" obtain s' where "scan_string cs = Inr (s', wide, rest)"
        by (auto split: if_splits dest: prepend_Inr)
      with "2.IH"(4) [OF nq False] "2.prems" nq False show ?thesis
        by (auto split: if_splits)
    next
      case True
      with nq "2.prems" show ?thesis
        using "2.IH"(1,2,3)
        by (auto split: if_splits list.splits option.splits dest!: prepend_Inr widen_Inr)
           fastforce+
    qed
  qed
qed

lemma scan_exponent_length:
  "scan_exponent acc s = Some (lx, rest) \<Longrightarrow> length rest \<le> length s"
  by (auto simp: scan_exponent_def Let_def split: list.splits if_splits
      intro: le_trans[OF length_dropWhile_le] le_SucI)

lemma scan_fraction_length:
  "scan_fraction acc s = Some (lx, rest) \<Longrightarrow> length rest \<le> length s"
  by (auto simp: scan_fraction_def Let_def split: list.splits if_splits
      dest!: scan_exponent_length
      intro: le_trans[OF _ length_dropWhile_le] le_SucI)

lemma scan_number_length:
  "scan_number (c # cs) = Some (lx, rest) \<Longrightarrow> length rest \<le> length cs"
  by (auto simp: scan_number_def Let_def split: list.splits if_splits
      dest!: scan_fraction_length
      intro: le_trans[OF _ length_dropWhile_le] le_SucI)

function tokenize :: "string \<Rightarrow> error + token list \<times> bool" where
  "tokenize [] = Inr ([], False)"
| "tokenize (c # cs) =
     (if is_ws c then tokenize cs
      else if c = CHR ''{'' then emit TLBrace (tokenize cs)
      else if c = CHR ''}'' then emit TRBrace (tokenize cs)
      else if c = CHR ''['' then emit TLBrack (tokenize cs)
      else if c = CHR '']'' then emit TRBrack (tokenize cs)
      else if c = CHR '':'' then emit TColon (tokenize cs)
      else if c = CHR '','' then emit TComma (tokenize cs)
      else if c = CHR 0x22 then
        (case scan_string cs of
           Inr (s, wide, rest) \<Rightarrow> mark wide (emit (TString s) (tokenize rest))
         | Inl e \<Rightarrow> Inl e)
      else if c = CHR ''-'' \<or> is_digit c then
        (case scan_number (c # cs) of
           Some (lx, rest) \<Rightarrow> emit (TNumber lx) (tokenize rest)
         | None \<Rightarrow> Inl SyntaxError)
      else if take 4 (c # cs) = ''true'' then emit (TLiteral (JBool True)) (tokenize (drop 3 cs))
      else if take 5 (c # cs) = ''false'' then emit (TLiteral (JBool False)) (tokenize (drop 4 cs))
      else if take 4 (c # cs) = ''null'' then emit (TLiteral JNull) (tokenize (drop 3 cs))
      else Inl SyntaxError)"
     apply pat_completeness
    apply simp
   apply simp
  apply (simp only: list.inject)
  done
termination
proof (relation "measure length", goal_cases)
  case (9 c cs x1 s x2 wide rest)
  then show ?case using scan_string_length[of cs s wide rest] by simp
next
  case (10 c cs x2 lx rest)
  then show ?case using scan_number_length[of c cs lx rest] by simp
qed auto

text \<open>
  The parser runs over the tokens with a stack of the arrays and objects that are still
  open. \<open>parse_value\<close> expects a value; \<open>parse_after v\<close> has just read the value
  \<open>v\<close>. A repeated key overwrites the earlier value in place (\<^emph>\<open>CreateDataProperty\<close>).
\<close>

datatype frame = FArr "json list" | FObj "(string \<times> json) list" string

fun parse_value :: "frame list \<Rightarrow> token list \<Rightarrow> json option"
  and parse_after :: "json \<Rightarrow> frame list \<Rightarrow> token list \<Rightarrow> json option" where
  "parse_value st [] = None"
| "parse_value st (t # ts) =
     (case t of
        TString s \<Rightarrow> parse_after (JStr s) st ts
      | TNumber n \<Rightarrow> parse_after (JNum n) st ts
      | TLiteral v \<Rightarrow> parse_after v st ts
      | TLBrack \<Rightarrow>
         (case ts of
            TRBrack # ts' \<Rightarrow> parse_after (JArr []) st ts'
          | _ \<Rightarrow> parse_value (FArr [] # st) ts)
      | TLBrace \<Rightarrow>
         (case ts of
            TRBrace # ts' \<Rightarrow> parse_after (JObj []) st ts'
          | TString k # TColon # ts' \<Rightarrow> parse_value (FObj [] k # st) ts'
          | _ \<Rightarrow> None)
      | _ \<Rightarrow> None)"
| "parse_after v [] ts = (if ts = [] then Some v else None)"
| "parse_after v (f # st) [] = None"
| "parse_after v (f # st) (t # ts) =
     (case f of
        FArr vs \<Rightarrow>
         (case t of
            TComma \<Rightarrow> parse_value (FArr (vs @ [v]) # st) ts
          | TRBrack \<Rightarrow> parse_after (JArr (vs @ [v])) st ts
          | _ \<Rightarrow> None)
      | FObj ps k \<Rightarrow>
         (case t of
            TComma \<Rightarrow>
             (case ts of
                TString k' # TColon # ts' \<Rightarrow> parse_value (FObj (AList.update k v ps) k' # st) ts'
              | _ \<Rightarrow> None)
          | TRBrace \<Rightarrow> parse_after (JObj (AList.update k v ps)) st ts
          | _ \<Rightarrow> None))"

text \<open>\<^verbatim>\<open>JSON.parse\<close> throws on a text that is not JSON. The value of a text with a
  code unit above \<open>0xFF\<close> is outside the strings of this theory.\<close>

definition JSON_parse :: "string \<Rightarrow> json outcome" where
  "JSON_parse text =
     (case tokenize text of
        Inl e \<Rightarrow> Throws e
      | Inr (ts, wide) \<Rightarrow>
         (case parse_value [] ts of
            None \<Rightarrow> Throws SyntaxError
          | Some v \<Rightarrow> if wide then Untyped else Returns v))"

section \<open>The file system\<close>

text \<open>
  The calls of \<^verbatim>\<open>fs\<close> and \<^verbatim>\<open>path\<close> that the store makes, on a POSIX system.
  A path names a file with its text, a directory, or nothing. \<open>locked\<close> are the paths
  where the operating system refuses the access (\<^verbatim>\<open>EACCES\<close>, a read-only volume, a
  full disk): a locked file can be neither read nor overwritten, and nothing can be
  created in a locked directory, which can still be looked through. \<open>console\<close> collects the lines written with
  \<^verbatim>\<open>console.error\<close>. Symbolic links are not modelled, and a path is looked up
  as it is spelled: two spellings of one file are two names here, so what is said about
  a file that is written and read again is said for plain paths (\<open>plain_path\<close>
  below).
\<close>

datatype node = File string | Dir

record world =
  nodes :: "string \<Rightarrow> node option"
  locked :: "string \<Rightarrow> bool"
  console :: "string list"

text \<open>
  \<^verbatim>\<open>path.dirname\<close> of Node on POSIX: trailing separators are skipped, then the last
  component; what is left, up to the separator before that component, is the result.
\<close>

definition dirname :: "string \<Rightarrow> string" where
  "dirname p =
     (case p of
        [] \<Rightarrow> ''.''
      | c # cs \<Rightarrow>
         (case dropWhile (\<lambda>x. x \<noteq> CHR ''/'') (dropWhile (\<lambda>x. x = CHR ''/'') (rev cs)) of
            [] \<Rightarrow> if c = CHR ''/'' then ''/'' else ''.''
          | x # r \<Rightarrow> if c = CHR ''/'' \<and> r = [] then ''//'' else c # rev r))"

definition path_size :: "string \<Rightarrow> nat" where
  "path_size p = (if p = ''/'' \<or> p = ''.'' then 0 else Suc (length p))"

lemma length_dropWhile_slash:
  assumes "dropWhile (\<lambda>x. x \<noteq> CHR ''/'') (dropWhile (\<lambda>x. x = CHR ''/'') xs) = x # r"
  shows "Suc (Suc (length r)) \<le> length xs"
proof -
  let ?ys = "dropWhile (\<lambda>x. x = CHR ''/'') xs"
  from assms obtain y ys where ys: "?ys = y # ys" by (cases ?ys) auto
  then have "y \<noteq> CHR ''/''" by (simp add: dropWhile_eq_Cons_conv)
  with assms ys have "dropWhile (\<lambda>x. x \<noteq> CHR ''/'') ys = x # r" by simp
  then have "length (x # r) \<le> length ys"
    using length_dropWhile_le [of "\<lambda>x. x \<noteq> CHR ''/''" ys] by simp
  moreover have "length ?ys \<le> length xs" by (rule length_dropWhile_le)
  ultimately show ?thesis using ys by simp
qed

lemma dirname_cases:
  "dirname p = ''/'' \<or> dirname p = ''.'' \<or> (dirname p = ''//'' \<and> 3 \<le> length p)
   \<or> length (dirname p) < length p"
proof (cases p)
  case Nil
  then show ?thesis by (simp add: dirname_def)
next
  case (Cons c cs)
  show ?thesis
  proof (cases "dropWhile (\<lambda>x. x \<noteq> CHR ''/'') (dropWhile (\<lambda>x. x = CHR ''/'') (rev cs))")
    case Nil
    have "dirname p = (if c = CHR ''/'' then ''/'' else ''.'')"
      unfolding dirname_def Cons by (simp only: list.case Nil)
    then show ?thesis by (cases "c = CHR ''/''") simp_all
  next
    case inner: (Cons x r)
    then have len: "Suc (Suc (length r)) \<le> length cs"
      using length_dropWhile_slash [of "rev cs" x r] by simp
    have "dirname p = (if c = CHR ''/'' \<and> r = [] then ''//'' else c # rev r)"
      unfolding dirname_def Cons by (simp only: list.case inner)
    then show ?thesis
      using len Cons by (cases "c = CHR ''/'' \<and> r = []") simp_all
  qed
qed

lemma path_size_dirname:
  assumes "p \<noteq> ''/''" "p \<noteq> ''.''"
  shows "path_size (dirname p) < path_size p"
proof -
  have p: "path_size p = Suc (length p)"
    using assms unfolding path_size_def by (simp only: if_False simp_thms)
  have le: "path_size q \<le> Suc (length q)" for q
    unfolding path_size_def by (simp only: split: if_split) simp
  have two: "path_size ''//'' = 3"
    unfolding path_size_def by simp
  from dirname_cases [of p] show ?thesis
  proof (elim disjE conjE)
    assume "dirname p = ''/''"
    then show ?thesis unfolding p by (simp add: path_size_def)
  next
    assume "dirname p = ''.''"
    then show ?thesis unfolding p by (simp add: path_size_def)
  next
    assume "dirname p = ''//''" "3 \<le> length p"
    then show ?thesis unfolding p by (simp add: two)
  next
    assume "length (dirname p) < length p"
    with le [of "dirname p"] show ?thesis unfolding p by simp
  qed
qed

text \<open>The directories above a path, from the root (or the working directory) down.\<close>

function ancestors :: "string \<Rightarrow> string list" where
  "ancestors p =
     (if p = ''/'' \<or> p = ''.'' then [] else ancestors (dirname p) @ [dirname p])"
  by pat_completeness auto
termination
  by (relation "measure path_size") (auto simp: path_size_dirname)

declare ancestors.simps [simp del]

lemma ancestors_top [simp]: "ancestors ''/'' = []" "ancestors ''.'' = []"
  by (simp_all add: ancestors.simps)

lemma ancestors_below:
  "p \<noteq> ''/'' \<Longrightarrow> p \<noteq> ''.'' \<Longrightarrow> ancestors p = ancestors (dirname p) @ [dirname p]"
  by (subst ancestors.simps) simp

text \<open>A path whose components are names: none is empty, \<^verbatim>\<open>.\<close> or \<^verbatim>\<open>..\<close>, so that
  two such paths name the same file only when they are equal.\<close>

fun components :: "string \<Rightarrow> string list" where
  "components [] = [[]]"
| "components (c # cs) =
     (if c = CHR ''/'' then [] # components cs
      else (case components cs of x # xs \<Rightarrow> (c # x) # xs | [] \<Rightarrow> [[c]]))"

definition plain_path :: "string \<Rightarrow> bool" where
  "plain_path p =
     list_all (\<lambda>c. c \<noteq> [] \<and> c \<noteq> ''.'' \<and> c \<noteq> ''..'')
       (components (if take 1 p = ''/'' then drop 1 p else p))"

text \<open>Looking a path up goes through the directories above it: the error of the first
  one that is not a directory.\<close>

fun walk :: "world \<Rightarrow> string list \<Rightarrow> error option" where
  "walk w [] = None"
| "walk w (d # ds) =
     (case nodes w d of
        Some Dir \<Rightarrow> walk w ds
      | Some (File text) \<Rightarrow> Some (SystemError ''ENOTDIR'')
      | None \<Rightarrow> Some (SystemError ''ENOENT''))"

definition existsSync :: "world \<Rightarrow> string \<Rightarrow> bool" where
  "existsSync w p = (walk w (ancestors p) = None \<and> nodes w p \<noteq> None)"

definition readFileSync :: "world \<Rightarrow> string \<Rightarrow> error + string" where
  "readFileSync w p =
     (case walk w (ancestors p) of
        Some e \<Rightarrow> Inl e
      | None \<Rightarrow>
         (case nodes w p of
            None \<Rightarrow> Inl (SystemError ''ENOENT'')
          | Some Dir \<Rightarrow> Inl (SystemError ''EISDIR'')
          | Some (File text) \<Rightarrow> if locked w p then Inl (SystemError ''EACCES'') else Inr text))"

text \<open>
  \<^verbatim>\<open>mkdirSync(dir, { recursive: true })\<close> makes the directories that are missing, from
  the top down, and stops at a path that is a file or that cannot be made. The world it
  returns has the directories made so far.
\<close>

fun mkdir_all :: "world \<Rightarrow> string list \<Rightarrow> world \<times> error option" where
  "mkdir_all w [] = (w, None)"
| "mkdir_all w (d # ds) =
     (case nodes w d of
        Some Dir \<Rightarrow> mkdir_all w ds
      | Some (File text) \<Rightarrow> (w, Some (SystemError (if ds = [] then ''EEXIST'' else ''ENOTDIR'')))
      | None \<Rightarrow>
         if locked w (dirname d) then (w, Some (SystemError ''EACCES''))
         else mkdir_all (w\<lparr>nodes := (nodes w)(d \<mapsto> Dir)\<rparr>) ds)"

definition mkdirSync :: "world \<Rightarrow> string \<Rightarrow> world \<times> error option" where
  "mkdirSync w d = mkdir_all w (ancestors d @ [d])"

definition writeFileSync :: "world \<Rightarrow> string \<Rightarrow> string \<Rightarrow> error + world" where
  "writeFileSync w p text =
     (case walk w (ancestors p) of
        Some e \<Rightarrow> Inl e
      | None \<Rightarrow>
         (case nodes w p of
            Some Dir \<Rightarrow> Inl (SystemError ''EISDIR'')
          | Some (File old) \<Rightarrow>
             if locked w p then Inl (SystemError ''EACCES'')
             else Inr (w\<lparr>nodes := (nodes w)(p \<mapsto> File text)\<rparr>)
          | None \<Rightarrow>
             if locked w (dirname p) then Inl (SystemError ''EACCES'')
             else Inr (w\<lparr>nodes := (nodes w)(p \<mapsto> File text)\<rparr>)))"

definition console_error :: "world \<Rightarrow> string \<Rightarrow> world" where
  "console_error w line = w\<lparr>console := console w @ [line]\<rparr>"

fun message :: "error \<Rightarrow> string" where
  "message SyntaxError = ''Unexpected token in JSON''"
| "message TypeError = ''Cannot convert undefined or null to object''"
| "message (SystemError code) = code"

section \<open>Plaid items\<close>

text \<open>
  Modelled from the spec: the interface \<^verbatim>\<open>PlaidItem\<close> and the type
  \<^verbatim>\<open>PlaidItemStatus\<close> are declared in \<^verbatim>\<open>src/plaid/types.ts\<close>, which is not among
  the sources. The fields are those of section 3 of the specification, which are also the
  ones the command line writes (\<^verbatim>\<open>store.saveItem({...})\<close>) and reads
  (\<^verbatim>\<open>item.lastSyncAt ?? 'Never'\<close>, \<^verbatim>\<open>item.syncCursor !== undefined\<close>). Time stamps
  are the strings of \<^verbatim>\<open>toISOString()\<close>; a status is its string; an optional field
  that is absent or \<^verbatim>\<open>undefined\<close> is \<open>None\<close>.
\<close>

record PlaidItem =
  itemId :: string
  accessToken :: string
  institutionId :: string
  institutionName :: string
  userId :: string
  status :: string
  createdAt :: string
  updatedAt :: string
  syncCursor :: "string option"
  lastSyncAt :: "string option"

text \<open>
  \<^verbatim>\<open>Partial<PlaidItem>\<close>: every key may be absent (\<open>None\<close>). The two optional
  fields can also be present with the value \<^verbatim>\<open>undefined\<close> (\<open>Some None\<close>), which
  the spread copies.
\<close>

record PlaidItem_partial =
  set_itemId :: "string option"
  set_accessToken :: "string option"
  set_institutionId :: "string option"
  set_institutionName :: "string option"
  set_userId :: "string option"
  set_status :: "string option"
  set_createdAt :: "string option"
  set_updatedAt :: "string option"
  set_syncCursor :: "string option option"
  set_lastSyncAt :: "string option option"

definition no_updates :: PlaidItem_partial where
  "no_updates =
     \<lparr>set_itemId = None, set_accessToken = None, set_institutionId = None,
      set_institutionName = None, set_userId = None, set_status = None,
      set_createdAt = None, set_updatedAt = None, set_syncCursor = None,
      set_lastSyncAt = None\<rparr>"

definition or_else :: "'a option \<Rightarrow> 'a \<Rightarrow> 'a" where
  "or_else x d = (case x of None \<Rightarrow> d | Some v \<Rightarrow> v)"

text \<open>The object \<^verbatim>\<open>{ ...existing, ...updates }\<close>.\<close>

definition spread :: "PlaidItem \<Rightarrow> PlaidItem_partial \<Rightarrow> PlaidItem" where
  "spread existing updates =
     \<lparr>itemId = or_else (set_itemId updates) (itemId existing),
      accessToken = or_else (set_accessToken updates) (accessToken existing),
      institutionId = or_else (set_institutionId updates) (institutionId existing),
      institutionName = or_else (set_institutionName updates) (institutionName existing),
      userId = or_else (set_userId updates) (userId existing),
      status = or_else (set_status updates) (status existing),
      createdAt = or_else (set_createdAt updates) (createdAt existing),
      updatedAt = or_else (set_updatedAt updates) (updatedAt existing),
      syncCursor = or_else (set_syncCursor updates) (syncCursor existing),
      lastSyncAt = or_else (set_lastSyncAt updates) (lastSyncAt existing)\<rparr>"

subsection \<open>Items as JSON\<close>

definition optional_property :: "string \<Rightarrow> string option \<Rightarrow> (string \<times> json) list" where
  "optional_property k x = (case x of None \<Rightarrow> [] | Some v \<Rightarrow> [(k, JStr v)])"

text \<open>The object that \<^verbatim>\<open>JSON.stringify\<close> sees for an item: a property whose value is
  \<^verbatim>\<open>undefined\<close> is left out.\<close>

definition item_json :: "PlaidItem \<Rightarrow> json" where
  "item_json item =
     JObj ([(''itemId'', JStr (itemId item)),
            (''accessToken'', JStr (accessToken item)),
            (''institutionId'', JStr (institutionId item)),
            (''institutionName'', JStr (institutionName item)),
            (''userId'', JStr (userId item)),
            (''status'', JStr (status item)),
            (''createdAt'', JStr (createdAt item)),
            (''updatedAt'', JStr (updatedAt item))]
           @ optional_property ''syncCursor'' (syncCursor item)
           @ optional_property ''lastSyncAt'' (lastSyncAt item))"

definition required :: "(string \<times> json) list \<Rightarrow> string \<Rightarrow> string option" where
  "required ps k = (case map_of ps k of Some (JStr v) \<Rightarrow> Some v | _ \<Rightarrow> None)"

definition optional :: "(string \<times> json) list \<Rightarrow> string \<Rightarrow> string option option" where
  "optional ps k =
     (case map_of ps k of None \<Rightarrow> Some None | Some (JStr v) \<Rightarrow> Some (Some v) | _ \<Rightarrow> None)"

definition item_keys :: "string list" where
  "item_keys = [''itemId'', ''accessToken'', ''institutionId'', ''institutionName'',
                ''userId'', ''status'', ''createdAt'', ''updatedAt'', ''syncCursor'',
                ''lastSyncAt'']"

text \<open>Whether a parsed value is an item: an object with exactly the fields of an
  item, all of them strings.\<close>

definition as_item :: "json \<Rightarrow> PlaidItem option" where
  "as_item v =
     (case v of
        JObj ps \<Rightarrow>
          (if list_all (\<lambda>k. k \<in> set item_keys) (map fst ps) then
             Option.bind (required ps ''itemId'') (\<lambda>a.
             Option.bind (required ps ''accessToken'') (\<lambda>b.
             Option.bind (required ps ''institutionId'') (\<lambda>c.
             Option.bind (required ps ''institutionName'') (\<lambda>d.
             Option.bind (required ps ''userId'') (\<lambda>e.
             Option.bind (required ps ''status'') (\<lambda>f.
             Option.bind (required ps ''createdAt'') (\<lambda>g.
             Option.bind (required ps ''updatedAt'') (\<lambda>h.
             Option.bind (optional ps ''syncCursor'') (\<lambda>i.
             Option.bind (optional ps ''lastSyncAt'') (\<lambda>j.
               Some \<lparr>itemId = a, accessToken = b, institutionId = c, institutionName = d,
                     userId = e, status = f, createdAt = g, updatedAt = h,
                     syncCursor = i, lastSyncAt = j\<rparr>))))))))))
           else None)
      | _ \<Rightarrow> None)"

text \<open>
  The values of the store's map. The map is declared \<^verbatim>\<open>Map<string, PlaidItem>\<close>, but
  \<^verbatim>\<open>load\<close> fills it through a type assertion that checks nothing
  (\<^verbatim>\<open>JSON.parse(data) as Record<string, PlaidItem>\<close>): whatever the file holds under a
  key becomes a value of the map. A value is an item, or a stray value that is not one.
\<close>

datatype entry = Item PlaidItem | Stray json

definition classify :: "json \<Rightarrow> entry" where
  "classify v = (case as_item v of Some item \<Rightarrow> Item item | None \<Rightarrow> Stray v)"

fun entry_json :: "entry \<Rightarrow> json" where
  "entry_json (Item item) = item_json item"
| "entry_json (Stray v) = v"

fun decimal :: "nat \<Rightarrow> string" where
  "decimal n = (if n < 10 then [hex_digit n] else decimal (n div 10) @ [hex_digit (n mod 10)])"

declare decimal.simps [simp del]

text \<open>The own enumerable properties of a value, as a spread or \<^verbatim>\<open>Object.entries\<close>
  sees them.\<close>

fun own_properties :: "json \<Rightarrow> (string \<times> json) list" where
  "own_properties (JObj ps) = ps"
| "own_properties (JArr vs) = zip (map decimal [0..<length vs]) vs"
| "own_properties (JStr s) = zip (map decimal [0..<length s]) (map (\<lambda>c. JStr [c]) s)"
| "own_properties v = []"

text \<open>\<^verbatim>\<open>Object.entries\<close> throws a \<^verbatim>\<open>TypeError\<close> for \<^verbatim>\<open>null\<close>.\<close>

definition Object_entries :: "json \<Rightarrow> error + (string \<times> json) list" where
  "Object_entries v = (if v = JNull then Inl TypeError else Inr (own_properties v))"

text \<open>\<^verbatim>\<open>new Map(entries)\<close> and \<^verbatim>\<open>Object.fromEntries(map)\<close> add the entries one by
  one: a key that is there already keeps its place and takes the new value.\<close>

definition add_all :: "('k \<times> 'v) list \<Rightarrow> ('k \<times> 'v) list" where
  "add_all es = fold (\<lambda>(k, v). AList.update k v) es []"

definition Object_fromEntries :: "(string \<times> entry) list \<Rightarrow> json" where
  "Object_fromEntries its = JObj (add_all (map (\<lambda>(k, e). (k, entry_json e)) its))"

text \<open>
  The object \<^verbatim>\<open>{ ...existing, ...updates, updatedAt: now }\<close> when \<open>existing\<close> is a
  stray value: its own properties, then the keys of the update in turn. A key that the
  update sets to \<^verbatim>\<open>undefined\<close> reads as absent afterwards and is left out by
  \<^verbatim>\<open>JSON.stringify\<close>: it is removed.
\<close>

definition assigned :: "string \<Rightarrow> string option \<Rightarrow> (string \<times> json option) list" where
  "assigned k x = (case x of None \<Rightarrow> [] | Some v \<Rightarrow> [(k, Some (JStr v))])"

definition assigned_optional ::
  "string \<Rightarrow> string option option \<Rightarrow> (string \<times> json option) list" where
  "assigned_optional k x = (case x of None \<Rightarrow> [] | Some v \<Rightarrow> [(k, map_option JStr v)])"

definition assignments :: "PlaidItem_partial \<Rightarrow> (string \<times> json option) list" where
  "assignments updates =
     assigned ''itemId'' (set_itemId updates)
     @ assigned ''accessToken'' (set_accessToken updates)
     @ assigned ''institutionId'' (set_institutionId updates)
     @ assigned ''institutionName'' (set_institutionName updates)
     @ assigned ''userId'' (set_userId updates)
     @ assigned ''status'' (set_status updates)
     @ assigned ''createdAt'' (set_createdAt updates)
     @ assigned ''updatedAt'' (set_updatedAt updates)
     @ assigned_optional ''syncCursor'' (set_syncCursor updates)
     @ assigned_optional ''lastSyncAt'' (set_lastSyncAt updates)"

fun assign :: "string \<times> json option \<Rightarrow> (string \<times> json) list \<Rightarrow> (string \<times> json) list" where
  "assign (k, Some v) ps = AList.update k v ps"
| "assign (k, None) ps = AList.delete k ps"

text \<open>The value that \<^verbatim>\<open>updateItem\<close> puts in the place of \<open>existing\<close>.\<close>

fun updated :: "entry \<Rightarrow> PlaidItem_partial \<Rightarrow> string \<Rightarrow> entry" where
  "updated (Item existing) updates now = Item ((spread existing updates)\<lparr>updatedAt := now\<rparr>)"
| "updated (Stray v) updates now =
     classify (JObj (AList.update ''updatedAt'' (JStr now)
                       (fold assign (assignments updates) (own_properties v))))"

section \<open>The store\<close>

text \<open>
  \<^verbatim>\<open>class FilePlaidItemStore\<close>. A JavaScript \<^verbatim>\<open>Map\<close> keeps its keys in insertion
  order, which \<^verbatim>\<open>getAllItems\<close> and \<^verbatim>\<open>getItemByAccessToken\<close> show: the map is an
  association list, \<^verbatim>\<open>set\<close> is \<^const>\<open>AList.update\<close> and \<^verbatim>\<open>delete\<close> is
  \<^const>\<open>AList.delete\<close>.
\<close>

record store =
  items :: "(string \<times> entry) list"
  filePath :: string

text \<open>The body of the \<^verbatim>\<open>try\<close> of \<^verbatim>\<open>load\<close>; \<open>None\<close> when there is no file and
  the map is left as it is. The only text it has no answer for is one with a code unit
  above \<open>0xFF\<close>.\<close>

definition load_try :: "world \<Rightarrow> string \<Rightarrow> (string \<times> entry) list option outcome" where
  "load_try w p =
     (if existsSync w p then
        (case readFileSync w p of
           Inl e \<Rightarrow> Throws e
         | Inr data \<Rightarrow>
            (case JSON_parse data of
               Throws e \<Rightarrow> Throws e
             | Untyped \<Rightarrow> Untyped
             | Returns parsed \<Rightarrow>
                (case Object_entries parsed of
                   Inl e \<Rightarrow> Throws e
                 | Inr es \<Rightarrow> Returns (Some (add_all (map (\<lambda>(k, v). (k, classify v)) es))))))
      else Returns None)"

definition load :: "world \<Rightarrow> store \<Rightarrow> store outcome" where
  "load w s =
     (case load_try w (filePath s) of
        Returns (Some its) \<Rightarrow> Returns (s\<lparr>items := its\<rparr>)
      | Returns None \<Rightarrow> Returns s
      | Throws e \<Rightarrow> Returns (s\<lparr>items := []\<rparr>)
      | Untyped \<Rightarrow> Untyped)"

text \<open>The constructor: \<^verbatim>\<open>items = new Map()\<close>, then \<^verbatim>\<open>load()\<close>.\<close>

definition FilePlaidItemStore :: "world \<Rightarrow> string \<Rightarrow> store outcome" where
  "FilePlaidItemStore w p = load w \<lparr>items = [], filePath = p\<rparr>"

definition warning :: "error \<Rightarrow> string" where
  "warning e = ''[WARN] Failed to save Plaid items: '' @ message e"

text \<open>\<^verbatim>\<open>save\<close>: what the \<^verbatim>\<open>try\<close> has done before a throw stays done.\<close>

definition save :: "world \<Rightarrow> store \<Rightarrow> world" where
  "save w s =
     (let dir = dirname (filePath s) in
      case (if \<not> existsSync w dir then mkdirSync w dir else (w, None)) of
        (w1, Some e) \<Rightarrow> console_error w1 (warning e)
      | (w1, None) \<Rightarrow>
         (case writeFileSync w1 (filePath s) (JSON_stringify (Object_fromEntries (items s))) of
            Inl e \<Rightarrow> console_error w1 (warning e)
          | Inr w2 \<Rightarrow> w2))"

text \<open>\<^verbatim>\<open>this.items.get(itemId) ?? null\<close>: nothing for a key that is not in the map, and
  for a key whose value is \<^verbatim>\<open>null\<close>.\<close>

definition getItem :: "store \<Rightarrow> string \<Rightarrow> entry option" where
  "getItem s k = (case map_of (items s) k of Some (Stray JNull) \<Rightarrow> None | r \<Rightarrow> r)"

text \<open>Reading a property of a value of the map: a \<^verbatim>\<open>TypeError\<close> on \<^verbatim>\<open>null\<close>,
  \<^verbatim>\<open>undefined\<close> (\<open>None\<close>) where the value has no such property. The keys read below
  are no index and not \<^verbatim>\<open>length\<close>.\<close>

fun property :: "entry \<Rightarrow> string \<Rightarrow> error + json option" where
  "property (Item item) k = Inr (map_of (own_properties (item_json item)) k)"
| "property (Stray v) k =
     (if v = JNull then Inl TypeError
      else case v of JObj ps \<Rightarrow> Inr (map_of ps k) | _ \<Rightarrow> Inr None)"

fun first_with :: "string \<Rightarrow> string \<Rightarrow> entry list \<Rightarrow> error + entry option" where
  "first_with k x [] = Inr None"
| "first_with k x (e # es) =
     (case property e k of
        Inl err \<Rightarrow> Inl err
      | Inr v \<Rightarrow> if v = Some (JStr x) then Inr (Some e) else first_with k x es)"

fun all_with :: "string \<Rightarrow> string \<Rightarrow> entry list \<Rightarrow> error + entry list" where
  "all_with k x [] = Inr []"
| "all_with k x (e # es) =
     (case property e k of
        Inl err \<Rightarrow> Inl err
      | Inr v \<Rightarrow>
         (case all_with k x es of
            Inl err \<Rightarrow> Inl err
          | Inr found \<Rightarrow> Inr (if v = Some (JStr x) then e # found else found)))"

definition getItemByAccessToken :: "store \<Rightarrow> string \<Rightarrow> error + entry option" where
  "getItemByAccessToken s token = first_with ''accessToken'' token (map snd (items s))"

definition getItemsByUserId :: "store \<Rightarrow> string \<Rightarrow> error + entry list" where
  "getItemsByUserId s u = all_with ''userId'' u (map snd (items s))"

definition getAllItems :: "store \<Rightarrow> entry list" where
  "getAllItems s = map snd (items s)"

text \<open>
  The methods that write. Each returns the file system and the store after the call, or
  the error it throws. \<open>now\<close> is what \<^verbatim>\<open>new Date().toISOString()\<close> returns when
  the method reads the clock.
\<close>

definition saveItem :: "PlaidItem \<Rightarrow> world \<times> store \<Rightarrow> error + world \<times> store" where
  "saveItem item ws =
     (let s = (snd ws)\<lparr>items := AList.update (itemId item) (Item item) (items (snd ws))\<rparr>
      in Inr (save (fst ws) s, s))"

definition updateItem ::
  "string \<Rightarrow> string \<Rightarrow> PlaidItem_partial \<Rightarrow> world \<times> store \<Rightarrow> error + world \<times> store" where
  "updateItem now k updates ws =
     (case map_of (items (snd ws)) k of
        Some existing \<Rightarrow>
          (let s = (snd ws)\<lparr>items :=
                     AList.update k (updated existing updates now) (items (snd ws))\<rparr>
           in Inr (save (fst ws) s, s))
      | None \<Rightarrow> Inr ws)"

definition deleteItem :: "string \<Rightarrow> world \<times> store \<Rightarrow> error + world \<times> store" where
  "deleteItem k ws =
     (let s = (snd ws)\<lparr>items := AList.delete k (items (snd ws))\<rparr>
      in Inr (save (fst ws) s, s))"

text \<open>\<^verbatim>\<open>updateSyncCursor\<close> reads the clock for \<^verbatim>\<open>lastSyncAt\<close> (\<open>now\<close>) before it
  calls \<^verbatim>\<open>updateItem\<close>, which reads it again (\<open>later\<close>).\<close>

definition updateSyncCursor ::
  "string \<Rightarrow> string \<Rightarrow> string \<Rightarrow> string \<Rightarrow> world \<times> store \<Rightarrow> error + world \<times> store" where
  "updateSyncCursor now later k cursor ws =
     updateItem later k
       (no_updates\<lparr>set_syncCursor := Some (Some cursor), set_lastSyncAt := Some (Some now)\<rparr>) ws"

definition updateStatus ::
  "string \<Rightarrow> string \<Rightarrow> string \<Rightarrow> world \<times> store \<Rightarrow> error + world \<times> store" where
  "updateStatus now k st ws = updateItem now k (no_updates\<lparr>set_status := Some st\<rparr>) ws"

text \<open>A caller that awaits one call after the other.\<close>

datatype mutation =
    SaveItem PlaidItem
  | UpdateItem string string PlaidItem_partial
  | DeleteItem string
  | UpdateSyncCursor string string string string
  | UpdateStatus string string string

fun perform :: "mutation \<Rightarrow> world \<times> store \<Rightarrow> error + world \<times> store" where
  "perform (SaveItem item) ws = saveItem item ws"
| "perform (UpdateItem now k updates) ws = updateItem now k updates ws"
| "perform (DeleteItem k) ws = deleteItem k ws"
| "perform (UpdateSyncCursor now later k cursor) ws = updateSyncCursor now later k cursor ws"
| "perform (UpdateStatus now k st) ws = updateStatus now k st ws"

fun perform_all :: "mutation list \<Rightarrow> world \<times> store \<Rightarrow> error + world \<times> store" where
  "perform_all [] ws = Inr ws"
| "perform_all (m # ms) ws =
     (case perform m ws of Inl e \<Rightarrow> Inl e | Inr ws' \<Rightarrow> perform_all ms ws')"

section \<open>The Plaid gateway\<close>

text \<open>
  \<^verbatim>\<open>createLinkToken\<close> and \<^verbatim>\<open>removeItem\<close>. The Plaid client and the configuration
  (\<^verbatim>\<open>getPlaidClient()\<close>, \<^verbatim>\<open>getPlaidConfig()\<close> of \<^verbatim>\<open>./client.js\<close>) are parameters:
  an endpoint is a function from the request to the response or the error it throws.
  \<^verbatim>\<open>Products.Transactions\<close> and \<^verbatim>\<open>CountryCode.Us\<close> are the strings the Plaid SDK
  gives them. The types \<^verbatim>\<open>CreateLinkTokenOptions\<close> and \<^verbatim>\<open>CreateLinkTokenResult\<close>
  are declared in \<^verbatim>\<open>./types.js\<close>, which is not among the sources: the records have
  the fields that \<^verbatim>\<open>createLinkToken\<close> reads and writes, and an optional field that
  is absent is \<open>None\<close>.
\<close>

record CreateLinkTokenOptions =
  opt_userId :: string
  opt_products :: "string list option"
  opt_countryCodes :: "string list option"
  opt_language :: "string option"
  opt_webhookUrl :: "string option"
  opt_redirectUri :: "string option"
  opt_accessToken :: "string option"

record PlaidConfig =
  cfg_webhookUrl :: "string option"
  cfg_redirectUri :: "string option"

record LinkTokenCreateRequest =
  client_user_id :: string
  client_name :: string
  products :: "string list"
  country_codes :: "string list"
  language :: string
  webhook :: "string option"
  redirect_uri :: "string option"
  access_token :: "string option"

record LinkTokenCreateResponse =
  link_token :: string
  expiration :: string
  request_id :: string

record CreateLinkTokenResult =
  linkToken :: string
  res_expiration :: string
  requestId :: string

definition Products_Transactions :: string where
  "Products_Transactions = ''transactions''"

definition CountryCode_Us :: string where
  "CountryCode_Us = ''US''"

text \<open>\<^verbatim>\<open>x ?? y\<close> where \<open>y\<close> may be \<^verbatim>\<open>undefined\<close> too.\<close>

definition coalesce :: "'a option \<Rightarrow> 'a option \<Rightarrow> 'a option" where
  "coalesce x y = (case x of None \<Rightarrow> y | Some v \<Rightarrow> Some v)"

text \<open>The object \<^verbatim>\<open>request\<close> of \<^verbatim>\<open>createLinkToken\<close>. A key that the conditional
  spread leaves out is \<open>None\<close>.\<close>

definition link_request :: "PlaidConfig \<Rightarrow> CreateLinkTokenOptions \<Rightarrow> LinkTokenCreateRequest" where
  "link_request config options =
     \<lparr>client_user_id = opt_userId options,
      client_name = ''BOA Statement Parser'',
      products = or_else (opt_products options) [Products_Transactions],
      country_codes = or_else (opt_countryCodes options) [CountryCode_Us],
      language = or_else (opt_language options) ''en'',
      webhook =
        (if opt_webhookUrl options \<noteq> None \<or> cfg_webhookUrl config \<noteq> None
         then coalesce (opt_webhookUrl options) (cfg_webhookUrl config)
         else None),
      redirect_uri =
        (if opt_redirectUri options \<noteq> None \<or> cfg_redirectUri config \<noteq> None
         then coalesce (opt_redirectUri options) (cfg_redirectUri config)
         else None),
      access_token = opt_accessToken options\<rparr>"

definition createLinkToken ::
  "(LinkTokenCreateRequest \<Rightarrow> error + LinkTokenCreateResponse) \<Rightarrow> PlaidConfig
     \<Rightarrow> CreateLinkTokenOptions \<Rightarrow> error + CreateLinkTokenResult" where
  "createLinkToken linkTokenCreate config options =
     (case linkTokenCreate (link_request config options) of
        Inl e \<Rightarrow> Inl e
      | Inr data \<Rightarrow>
          Inr \<lparr>linkToken = link_token data, res_expiration = expiration data,
               requestId = request_id data\<rparr>)"

text \<open>The response of \<^verbatim>\<open>/item/remove\<close>: its request id, and whatever else the provider
  sends (the \<open>more\<close> part of the record).\<close>

record ItemRemoveResponse =
  remove_request_id :: string

record RemoveItemResult =
  removed :: bool
  removed_requestId :: string

definition removeItem ::
  "(string \<Rightarrow> error + 'a ItemRemoveResponse_scheme) \<Rightarrow> string \<Rightarrow> error + RemoveItemResult" where
  "removeItem itemRemove token =
     (case itemRemove token of
        Inl e \<Rightarrow> Inl e
      | Inr data \<Rightarrow> Inr \<lparr>removed = True, removed_requestId = remove_request_id data\<rparr>)"

section \<open>Concrete inputs\<close>

text \<open>An item as the command \<^verbatim>\<open>plaid link\<close> saves it, a first run on a machine
  where the home directory is there and the directory of the store is not, and the
  store constructed there.\<close>

definition store_path :: string where
  "store_path = ''/home/u/.boa-parser/plaid-items.json''"

definition first_run :: world where
  "first_run =
     \<lparr>nodes = (\<lambda>p. None)(''/'' \<mapsto> Dir, ''/home'' \<mapsto> Dir, ''/home/u'' \<mapsto> Dir),
      locked = (\<lambda>p. False), console = []\<rparr>"

definition later_run :: world where
  "later_run = first_run\<lparr>nodes := (nodes first_run)(''/home/u/.boa-parser'' \<mapsto> Dir)\<rparr>"

definition new_store :: store where
  "new_store = \<lparr>items = [], filePath = store_path\<rparr>"

definition sandbox_item :: PlaidItem where
  "sandbox_item =
     \<lparr>itemId = ''item-1'', accessToken = ''access-sandbox-1'',
      institutionId = ''ins_109508'', institutionName = ''Sandbox Bank'',
      userId = ''user-1'', status = ''active'',
      createdAt = ''2024-01-01T00:00:00.000Z'', updatedAt = ''2024-01-01T00:00:00.000Z'',
      syncCursor = None, lastSyncAt = None\<rparr>"

definition synced_item :: PlaidItem where
  "synced_item =
     sandbox_item\<lparr>syncCursor := Some ''cursor-1'',
                   lastSyncAt := Some ''2024-03-01T10:00:00.000Z'',
                   updatedAt := ''2024-03-01T10:00:00.000Z''\<rparr>"

definition synced_store :: store where
  "synced_store = \<lparr>items = [(''item-1'', Item synced_item)], filePath = store_path\<rparr>"

text \<open>Options of a call that names a redirect only, and a configuration with both URLs.\<close>

definition bare_options :: CreateLinkTokenOptions where
  "bare_options =
     \<lparr>opt_userId = ''user-1'', opt_products = None, opt_countryCodes = None,
      opt_language = None, opt_webhookUrl = None, opt_redirectUri = Some ''https://app.example/cb'',
      opt_accessToken = None\<rparr>"

definition env_config :: PlaidConfig where
  "env_config = \<lparr>cfg_webhookUrl = Some ''https://hooks.example/plaid'',
                  cfg_redirectUri = Some ''https://env.example/cb''\<rparr>"

text \<open>The synced item with another creation time.\<close>

definition replaced_item :: PlaidItem where
  "replaced_item = synced_item\<lparr>createdAt := ''2025-06-01T00:00:00.000Z''\<rparr>"

text \<open>A store file that is empty, and one cut off after its first sixty characters.\<close>

definition empty_file_run :: world where
  "empty_file_run = later_run\<lparr>nodes := (nodes later_run)(store_path \<mapsto> File [])\<rparr>"

definition truncated_text :: string where
  "truncated_text =
     take 60 (JSON_stringify (Object_fromEntries [(''item-1'', Item sandbox_item)]))"

definition truncated_run :: world where
  "truncated_run =
     later_run\<lparr>nodes := (nodes later_run)(store_path \<mapsto> File truncated_text)\<rparr>"

text \<open>Options of a call that names a webhook only, and a configuration without URLs.\<close>

definition webhook_options :: CreateLinkTokenOptions where
  "webhook_options =
     \<lparr>opt_userId = ''user-2'', opt_products = Some [''auth''], opt_countryCodes = None,
      opt_language = Some ''fr'', opt_webhookUrl = Some ''https://app.example/hook'',
      opt_redirectUri = None, opt_accessToken = Some ''access-sandbox-1''\<rparr>"

definition no_config :: PlaidConfig where
  "no_config = \<lparr>cfg_webhookUrl = None, cfg_redirectUri = None\<rparr>"

text \<open>A store file that cannot be read.\<close>

definition locked_run :: world where
  "locked_run =
     later_run\<lparr>nodes := (nodes later_run)(store_path \<mapsto> File ''{}''),
               locked := (\<lambda>p. p = store_path)\<rparr>"

text \<open>A store file with the text \<^verbatim>\<open>{"a": 1}\<close>, which is JSON and no record of
  items.\<close>

definition stray_text :: string where
  "stray_text = CHR ''{'' # QuoteJSONString ''a'' @ '': 1}''"

definition stray_run :: world where
  "stray_run = later_run\<lparr>nodes := (nodes later_run)(store_path \<mapsto> File stray_text)\<rparr>"

text \<open>A machine where \<^verbatim>\<open>/home/u\<close> is a regular file.\<close>

definition blocked_run :: world where
  "blocked_run =
     \<lparr>nodes = (\<lambda>p. None)(''/'' \<mapsto> Dir, ''/home'' \<mapsto> Dir, ''/home/u'' \<mapsto> File ''x''),
      locked = (\<lambda>p. False), console = []\<rparr>"

section \<open>The tokens of a value\<close>

text \<open>
  What \<open>tokenize\<close> should find in the text of a value, and the values that the store
  writes: strings, in objects with distinct keys.
\<close>

fun commas :: "token list list \<Rightarrow> token list" where
  "commas [] = []"
| "commas [x] = x"
| "commas (x # y # ys) = x @ TComma # commas (y # ys)"

fun tokens_of :: "json \<Rightarrow> token list" where
  "tokens_of JNull = [TLiteral JNull]"
| "tokens_of (JBool b) = [TLiteral (JBool b)]"
| "tokens_of (JNum n) = [TNumber n]"
| "tokens_of (JStr s) = [TString s]"
| "tokens_of (JArr vs) = TLBrack # commas (map tokens_of vs) @ [TRBrack]"
| "tokens_of (JObj ps) =
     TLBrace # commas (map (\<lambda>(k, v). TString k # TColon # tokens_of v) ps) @ [TRBrace]"

fun strings_only :: "json \<Rightarrow> bool" where
  "strings_only (JStr s) = True"
| "strings_only (JObj ps) = (distinct (map fst ps) \<and> list_all (\<lambda>(k, v). strings_only v) ps)"
| "strings_only v = False"

definition emit_all :: "token list \<Rightarrow> error + token list \<times> bool \<Rightarrow> error + token list \<times> bool" where
  "emit_all ts r = foldr emit ts r"

definition member_tail :: "(string \<times> json) list \<Rightarrow> token list" where
  "member_tail ps = concat (map (\<lambda>(k, v). TComma # TString k # TColon # tokens_of v) ps)"

section \<open>A file that can be written\<close>

text \<open>
  The file system lets \<open>save\<close> write the file at \<open>p\<close>, and a later run read it: the
  path is a plain one, the root (or the working directory, for a relative path) is
  there, each directory above the path is there or can be made, and the path itself is
  neither a directory nor locked. Where \<^verbatim>\<open>/home/u\<close> is a regular file, or the path
  ends in a separator, this does not hold.
\<close>

definition origin :: "string \<Rightarrow> string" where
  "origin p = (if take 1 p = ''/'' then ''/'' else ''.'')"

fun can_make :: "world \<Rightarrow> string list \<Rightarrow> bool" where
  "can_make w [] = True"
| "can_make w (d # ds) =
     ((nodes w d = Some Dir \<or> (nodes w d = None \<and> \<not> locked w (dirname d)))
      \<and> can_make w ds)"

definition can_save :: "world \<Rightarrow> string \<Rightarrow> bool" where
  "can_save w p =
     (plain_path p \<and> nodes w (origin p) = Some Dir \<and> can_make w (ancestors p)
      \<and> nodes w p \<noteq> Some Dir \<and> \<not> locked w p \<and> \<not> locked w (dirname p))"

text \<open>The directory of the file, checked and made if it is not there.\<close>

definition prepared :: "world \<Rightarrow> string \<Rightarrow> world \<times> error option" where
  "prepared w d = (if \<not> existsSync w d then mkdirSync w d else (w, None))"

text \<open>Every value of the store is an item.\<close>

definition only_items :: "store \<Rightarrow> bool" where
  "only_items s = list_all (\<lambda>e. case e of Item item \<Rightarrow> True | Stray v \<Rightarrow> False) (map snd (items s))"

text \<open>A second item, and the calls of a session that links two banks and syncs one.\<close>

definition second_item :: PlaidItem where
  "second_item =
     sandbox_item\<lparr>itemId := ''item-2'', accessToken := ''access-sandbox-2'',
                   institutionName := ''First Platypus Bank'',
                   createdAt := ''2024-02-01T00:00:00.000Z'',
                   updatedAt := ''2024-02-01T00:00:00.000Z''\<rparr>"

definition session :: "mutation list" where
  "session =
     [SaveItem sandbox_item,
      UpdateSyncCursor ''2024-03-01T10:00:00.000Z'' ''2024-03-01T10:00:00.001Z''
        ''item-1'' ''cursor-1'',
      SaveItem second_item]"


text \<open>A later run over the file that holds the synced item, and the calls of a session
  that marks the item, links a second bank and unlinks the first.\<close>

definition restart_run :: world where
  "restart_run =
     later_run\<lparr>nodes := (nodes later_run)
       (store_path \<mapsto> File (JSON_stringify (Object_fromEntries (items synced_store))))\<rparr>"

definition second_session :: "mutation list" where
  "second_session =
     [UpdateStatus ''2024-03-02T09:30:00.000Z'' ''item-1'' ''error'',
      SaveItem second_item,
      DeleteItem ''item-1'']"
section \<open>The path of the store\<close>

lemma dirname_store_path: "dirname store_path = ''/home/u/.boa-parser''"
  by (simp add: store_path_def dirname_def)

lemma ancestors_store_path:
  "ancestors store_path = [''/'', ''/home'', ''/home/u'', ''/home/u/.boa-parser'']"
  by (simp add: store_path_def ancestors_below dirname_def)

lemma plain_store_path: "plain_path store_path"
  by (simp add: plain_path_def store_path_def)

section \<open>Reading back what was written\<close>

lemma getItem_update:
  "getItem (s\<lparr>items := AList.update k (Item item) (items s)\<rparr>) k' =
     (if k' = k then Some (Item item) else getItem s k')"
  by (simp add: getItem_def update_conv')

lemma getItem_update_other:
  "k' \<noteq> k \<Longrightarrow> getItem (s\<lparr>items := AList.update k e (items s)\<rparr>) k' = getItem s k'"
  by (simp add: getItem_def update_conv')

lemma getItem_delete:
  "getItem (s\<lparr>items := AList.delete k (items s)\<rparr>) k' =
     (if k' = k then None else getItem s k')"
  by (simp add: getItem_def delete_conv')

lemma getItem_Item: "getItem s k = Some (Item item) \<longleftrightarrow> map_of (items s) k = Some (Item item)"
  by (auto simp: getItem_def split: option.splits entry.splits json.splits)

text \<open>
  C1. After \<open>saveItem item\<close>, which does not throw, \<open>getItem\<close> with the item's
  \<open>itemId\<close> returns the record that was saved, equal in every field.
\<close>

theorem saveItem_then_getItem:
  "\<exists>w' s'. saveItem item (w, s) = Inr (w', s') \<and> getItem s' (itemId item) = Some (Item item)"
  by (simp add: saveItem_def Let_def getItem_update)

theorem saveItem_then_getItem_witness:
  "\<exists>w' s'. saveItem sandbox_item (first_run, new_store) = Inr (w', s')
     \<and> getItem s' ''item-1'' = Some (Item sandbox_item)"
  using saveItem_then_getItem [of sandbox_item first_run new_store]
  by (simp add: sandbox_item_def)

text \<open>
  C6. For an \<open>itemId\<close> that is not a key of the store's map, \<open>getItem\<close> returns
  nothing and \<open>updateItem\<close> returns without an error and changes nothing: not the map,
  not the file, not the console. The same holds for \<open>updateSyncCursor\<close> and
  \<open>updateStatus\<close>, which call it.
\<close>

theorem updateItem_missing_is_noop:
  "map_of (items s) k = None \<Longrightarrow>
     getItem s k = None
     \<and> updateItem now k updates (w, s) = Inr (w, s)
     \<and> updateSyncCursor now later k cursor (w, s) = Inr (w, s)
     \<and> updateStatus now k st (w, s) = Inr (w, s)"
  by (simp add: updateItem_def updateSyncCursor_def updateStatus_def getItem_def)

theorem updateItem_missing_is_noop_witness:
  "map_of (items new_store) ''item-9'' = None
   \<and> getItem new_store ''item-9'' = None
   \<and> updateItem ''2024-03-01T10:00:00.000Z'' ''item-9''
       (no_updates\<lparr>set_status := Some ''error''\<rparr>) (first_run, new_store)
       = Inr (first_run, new_store)
   \<and> updateSyncCursor ''2024-03-01T10:00:00.000Z'' ''2024-03-01T10:00:00.001Z''
       ''item-9'' ''cursor-1'' (first_run, new_store)
       = Inr (first_run, new_store)
   \<and> updateStatus ''2024-03-01T10:00:00.000Z'' ''item-9'' ''error'' (first_run, new_store)
       = Inr (first_run, new_store)"
proof -
  have absent: "map_of (items new_store) ''item-9'' = None"
    by (simp add: new_store_def)
  show ?thesis
    using absent updateItem_missing_is_noop [OF absent] by simp
qed

section \<open>Saving to the file\<close>

lemma walk_None: "walk w ds = None \<longleftrightarrow> (\<forall>d\<in>set ds. nodes w d = Some Dir)"
  by (induction ds) (auto split: option.splits node.splits)

lemma nodes_console_error [simp]: "nodes (console_error w l) = nodes w"
  and locked_console_error [simp]: "locked (console_error w l) = locked w"
  by (simp_all add: console_error_def)

lemma walk_cong: "nodes w' = nodes w \<Longrightarrow> walk w' ds = walk w ds"
  by (induction ds) (auto split: option.splits node.splits)

lemma mkdir_all_keeps:
  "mkdir_all w ds = (w1, r) \<Longrightarrow> locked w1 = locked w \<and> console w1 = console w"
  by (induction ds arbitrary: w) (auto split: option.splits node.splits if_splits)

lemma mkdir_all_nodes:
  "mkdir_all w ds = (w1, r) \<Longrightarrow>
     nodes w1 x = nodes w x \<or> (x \<in> set ds \<and> nodes w x = None \<and> nodes w1 x = Some Dir)"
proof (induction ds arbitrary: w)
  case Nil
  then show ?case by simp
next
  case (Cons d ds)
  show ?case
  proof (cases "nodes w d = None \<and> \<not> locked w (dirname d)")
    case True
    let ?w = "w\<lparr>nodes := (nodes w)(d \<mapsto> Dir)\<rparr>"
    from True Cons.prems have "mkdir_all ?w ds = (w1, r)" by simp
    from Cons.IH [OF this] True show ?thesis
      by (cases "x = d") auto
  next
    case False
    with Cons show ?thesis
      by (auto split: option.splits node.splits if_splits)
  qed
qed

lemma mkdir_all_done:
  "mkdir_all w ds = (w1, None) \<Longrightarrow> \<forall>d\<in>set ds. nodes w1 d = Some Dir"
proof (induction ds arbitrary: w)
  case Nil
  then show ?case by simp
next
  case (Cons d ds)
  then obtain w0 where step: "mkdir_all w0 ds = (w1, None)" "nodes w0 d = Some Dir"
    by (auto split: option.splits node.splits if_splits)
  from mkdir_all_nodes [OF step(1), of d] step(2) have "nodes w1 d = Some Dir" by auto
  with Cons.IH [OF step(1)] show ?case by simp
qed

lemma mkdir_all_failed:
  "mkdir_all w ds = (w1, Some e) \<Longrightarrow> \<exists>d\<in>set ds. nodes w1 d \<noteq> Some Dir"
  by (induction ds arbitrary: w) (auto split: option.splits node.splits if_splits)

lemma mkdir_all_again:
  "mkdir_all w ds = (w1, r) \<Longrightarrow> mkdir_all w1 ds = (w1, r)"
proof (induction ds arbitrary: w)
  case Nil
  then show ?case by simp
next
  case (Cons d ds)
  show ?case
  proof (cases "nodes w d")
    case None
    show ?thesis
    proof (cases "locked w (dirname d)")
      case True
      with None Cons.prems show ?thesis by auto
    next
      case False
      let ?w = "w\<lparr>nodes := (nodes w)(d \<mapsto> Dir)\<rparr>"
      from None False Cons.prems have step: "mkdir_all ?w ds = (w1, r)" by simp
      from mkdir_all_nodes [OF step, of d] have "nodes w1 d = Some Dir" by auto
      with Cons.IH [OF step] show ?thesis by simp
    qed
  next
    case (Some n)
    show ?thesis
    proof (cases n)
      case (File t)
      with Some Cons.prems show ?thesis by auto
    next
      case Dir
      with Some Cons.prems have step: "mkdir_all w ds = (w1, r)" by simp
      from mkdir_all_nodes [OF step, of d] Some Dir have "nodes w1 d = Some Dir" by auto
      with Cons.IH [OF step] show ?thesis by simp
    qed
  qed
qed

lemma mkdir_all_cong:
  "nodes w' = nodes w \<Longrightarrow> locked w' = locked w \<Longrightarrow>
     nodes (fst (mkdir_all w' ds)) = nodes (fst (mkdir_all w ds))
     \<and> snd (mkdir_all w' ds) = snd (mkdir_all w ds)"
proof (induction ds arbitrary: w w')
  case Nil
  then show ?case by simp
next
  case (Cons d ds)
  show ?case
  proof (cases "nodes w d = None \<and> \<not> locked w (dirname d)")
    case True
    let ?v = "w\<lparr>nodes := (nodes w)(d \<mapsto> Dir)\<rparr>"
    let ?v' = "w'\<lparr>nodes := (nodes w')(d \<mapsto> Dir)\<rparr>"
    have "nodes ?v' = nodes ?v" "locked ?v' = locked ?v"
      using Cons.prems by simp_all
    from Cons.IH [OF this] True Cons.prems show ?thesis by simp
  next
    case False
    with Cons.IH [OF Cons.prems] Cons.prems show ?thesis
      by (auto split: option.splits node.splits)
  qed
qed

lemma existsSync_cong: "nodes w' = nodes w \<Longrightarrow> existsSync w' p = existsSync w p"
  by (simp add: existsSync_def walk_cong [of w' w])

lemma writeFileSync_cong:
  "nodes w' = nodes w \<Longrightarrow> locked w' = locked w \<Longrightarrow>
     (case writeFileSync w' p t of Inl e \<Rightarrow> Inl e | Inr x \<Rightarrow> Inr (nodes x))
       = (case writeFileSync w p t of Inl e \<Rightarrow> Inl e | Inr x \<Rightarrow> Inr (nodes x))"
  by (simp add: writeFileSync_def walk_cong [of w' w] split: option.splits node.splits)

lemma writeFileSync_Inr:
  "writeFileSync w p t = Inr w2 \<longleftrightarrow>
     walk w (ancestors p) = None \<and> nodes w p \<noteq> Some Dir
     \<and> (if nodes w p = None then \<not> locked w (dirname p) else \<not> locked w p)
     \<and> w2 = w\<lparr>nodes := (nodes w)(p \<mapsto> File t)\<rparr>"
  by (auto simp: writeFileSync_def split: option.splits node.splits)


lemma writeFileSync_locked:
  "writeFileSync w p t = Inr w2 \<Longrightarrow> locked w2 = locked w \<and> console w2 = console w"
  by (auto simp: writeFileSync_Inr)

lemma save_prepared:
  "save w s =
     (case prepared w (dirname (filePath s)) of
        (w1, Some e) \<Rightarrow> console_error w1 (warning e)
      | (w1, None) \<Rightarrow>
         (case writeFileSync w1 (filePath s) (JSON_stringify (Object_fromEntries (items s))) of
            Inl e \<Rightarrow> console_error w1 (warning e)
          | Inr w2 \<Rightarrow> w2))"
  by (simp add: save_def prepared_def Let_def)

lemma prepared_keeps: "prepared w d = (w1, r) \<Longrightarrow> locked w1 = locked w \<and> console w1 = console w"
  by (auto simp: prepared_def mkdirSync_def dest: mkdir_all_keeps split: if_splits)

lemma prepared_cong:
  assumes "nodes w' = nodes w" "locked w' = locked w"
  shows "nodes (fst (prepared w' d)) = nodes (fst (prepared w d))"
    and "snd (prepared w' d) = snd (prepared w d)"
  using mkdir_all_cong [OF assms, of "ancestors d @ [d]"] existsSync_cong [OF assms(1), of d] assms
  by (simp_all add: prepared_def mkdirSync_def)

lemma prepared_done: "prepared w d = (w1, None) \<Longrightarrow> existsSync w1 d"
proof (cases "existsSync w d")
  case True
  assume "prepared w d = (w1, None)"
  with True show ?thesis by (simp add: prepared_def)
next
  case False
  assume "prepared w d = (w1, None)"
  with False have "mkdir_all w (ancestors d @ [d]) = (w1, None)"
    by (simp add: prepared_def mkdirSync_def)
  from mkdir_all_done [OF this] show ?thesis
    by (simp add: existsSync_def walk_None)
qed

lemma prepared_again: "prepared w d = (w1, None) \<Longrightarrow> prepared w1 d = (w1, None)"
  using prepared_done [of w d w1] by (simp add: prepared_def)

lemma save_locked [simp]: "locked (save w s) = locked w"
proof -
  obtain w1 r where p: "prepared w (dirname (filePath s)) = (w1, r)"
    by (cases "prepared w (dirname (filePath s))")
  from prepared_keeps [OF p] show ?thesis
    by (auto simp: save_prepared p dest: writeFileSync_locked split: option.splits sum.splits)
qed

lemma save_nodes_cong:
  assumes "nodes w' = nodes w" "locked w' = locked w"
  shows "nodes (save w' s) = nodes (save w s)"
proof -
  let ?d = "dirname (filePath s)"
  let ?t = "JSON_stringify (Object_fromEntries (items s))"
  obtain w1 r where p: "prepared w ?d = (w1, r)" by (cases "prepared w ?d")
  obtain w1' r' where p': "prepared w' ?d = (w1', r')" by (cases "prepared w' ?d")
  from prepared_cong [OF assms, of ?d] p p' have eq: "nodes w1' = nodes w1" "r' = r"
    by simp_all
  from prepared_keeps [OF p] prepared_keeps [OF p'] assms have "locked w1' = locked w1"
    by simp
  from writeFileSync_cong [OF eq(1) this, of "filePath s" ?t] show ?thesis
    by (auto simp: save_prepared p p' eq split: option.splits sum.splits)
qed


lemma dirname_top [simp]: "dirname ''/'' = ''/''" "dirname ''.'' = ''.''"
  by (simp_all add: dirname_def)

lemma directory_above:
  "dirname p \<in> set (ancestors p) \<or> (dirname p = p \<and> ancestors p = [])"
proof (cases "p = ''/'' \<or> p = ''.''")
  case True
  then show ?thesis by auto
next
  case False
  then show ?thesis by (simp add: ancestors_below)
qed

lemma ancestors_directory:
  "ancestors p = [] \<or> ancestors p = ancestors (dirname p) @ [dirname p]"
  by (cases "p = ''/'' \<or> p = ''.''") (auto simp: ancestors_below)

text \<open>Writing the same text again changes no file.\<close>

lemma save_once_written:
  assumes "prepared w d = (w1, None)" and "d = dirname (filePath s)"
    and "writeFileSync w1 (filePath s) (JSON_stringify (Object_fromEntries (items s))) = Inr w2"
  shows "nodes (save w2 s) = nodes w2"
proof -
  let ?p = "filePath s"
  let ?t = "JSON_stringify (Object_fromEntries (items s))"
  from assms(3) have wr: "walk w1 (ancestors ?p) = None" "nodes w1 ?p \<noteq> Some Dir"
    "w2 = w1\<lparr>nodes := (nodes w1)(?p \<mapsto> File ?t)\<rparr>"
    by (simp_all add: writeFileSync_Inr)
  then have notin: "?p \<notin> set (ancestors ?p)"
    by (auto simp: walk_None)
  have same: "nodes w2 q = nodes w1 q" if "q \<in> set (ancestors ?p)" for q
    using that notin by (auto simp: wr(3))
  have walk2: "walk w2 (ancestors ?p) = None"
    using wr(1) same by (simp add: walk_None)
  have "existsSync w1 d" using assms(1) by (rule prepared_done)
  have "existsSync w2 d"
  proof (cases "ancestors ?p = []")
    case True
    with directory_above [of ?p] have "d = ?p" "ancestors d = []"
      by (auto simp: assms(2))
    then show ?thesis by (simp add: existsSync_def wr(3))
  next
    case False
    with ancestors_directory [of ?p] have a: "ancestors ?p = ancestors d @ [d]"
      by (simp add: assms(2))
    with walk2 have "walk w2 (ancestors d) = None" "nodes w2 d = Some Dir"
      by (simp_all add: walk_None)
    then show ?thesis by (simp add: existsSync_def)
  qed
  then have prep: "prepared w2 d = (w2, None)" by (simp add: prepared_def)
  show ?thesis
  proof (cases "writeFileSync w2 ?p ?t")
    case (Inl e)
    with prep show ?thesis by (simp add: save_prepared assms(2) [symmetric])
  next
    case (Inr w3)
    then have "nodes w3 = nodes w2"
      by (auto simp: writeFileSync_Inr wr(3))
    with prep Inr show ?thesis by (simp add: save_prepared assms(2) [symmetric])
  qed
qed

lemma save_twice_nodes: "nodes (save (save w s) s) = nodes (save w s)"
proof -
  let ?p = "filePath s"
  let ?d = "dirname ?p"
  let ?t = "JSON_stringify (Object_fromEntries (items s))"
  obtain w1 r where p: "prepared w ?d = (w1, r)" by (cases "prepared w ?d")
  have logged: "nodes (save (console_error w1 l) s) = nodes (save w1 s)" for l
    by (rule save_nodes_cong) simp_all
  show ?thesis
  proof (cases r)
    case None
    with p have again: "prepared w1 ?d = (w1, None)" by (simp add: prepared_again)
    show ?thesis
    proof (cases "writeFileSync w1 ?p ?t")
      case (Inl e)
      with p None have "save w s = console_error w1 (warning e)"
        by (simp add: save_prepared)
      moreover from again Inl have "nodes (save w1 s) = nodes w1"
        by (simp add: save_prepared)
      ultimately show ?thesis by (simp add: logged)
    next
      case (Inr w2)
      with p None have "save w s = w2" by (simp add: save_prepared)
      moreover from p None Inr have "nodes (save w2 s) = nodes w2"
        by (intro save_once_written [of w ?d w1]) simp_all
      ultimately show ?thesis by simp
    qed
  next
    case (Some e)
    with p have failed: "\<not> existsSync w ?d" "mkdir_all w (ancestors ?d @ [?d]) = (w1, Some e)"
      by (auto simp: prepared_def mkdirSync_def split: if_splits)
    from p Some have first: "save w s = console_error w1 (warning e)"
      by (simp add: save_prepared)
    have "nodes (save w1 s) = nodes w1"
    proof (cases "existsSync w1 ?d")
      case False
      with mkdir_all_again [OF failed(2)] have "prepared w1 ?d = (w1, Some e)"
        by (simp add: prepared_def mkdirSync_def)
      then show ?thesis by (simp add: save_prepared)
    next
      case True
      then have here: "walk w1 (ancestors ?d) = None" "nodes w1 ?d \<noteq> None"
        by (simp_all add: existsSync_def)
      from mkdir_all_failed [OF failed(2)] here(1) have isfile: "nodes w1 ?d \<noteq> Some Dir"
        by (auto simp: walk_None)
      have "walk w1 (ancestors ?p) \<noteq> None"
      proof (cases "ancestors ?p = []")
        case False
        with directory_above [of ?p] isfile show ?thesis
          by (auto simp: walk_None)
      next
        case top: True
        with directory_above [of ?p] have d: "?d = ?p" "ancestors ?d = []" by auto
        with failed(1) have "nodes w ?d = None" by (simp add: existsSync_def)
        with mkdir_all_nodes [OF failed(2), of ?d] here(2) isfile show ?thesis by auto
      qed
      then obtain e' where "writeFileSync w1 ?p ?t = Inl e'"
        by (auto simp: writeFileSync_def)
      with True show ?thesis by (simp add: save_prepared prepared_def)
    qed
    with first show ?thesis by (simp add: logged)
  qed
qed

lemma delete_absent: "map_of al k = None \<Longrightarrow> AList.delete k al = al"
  by (induction al) (auto split: if_splits)

text \<open>
  C8. After \<open>deleteItem k\<close>, \<open>getItem k\<close> returns nothing. Deleting the same id
  again is no error and leaves the store and the files as the first delete left them;
  deleting an id that is not a key of the store is no error and leaves the store as it
  was.
\<close>

theorem deleteItem_then_absent:
  "\<exists>w1 s1 w2.
     deleteItem k (w, s) = Inr (w1, s1) \<and> getItem s1 k = None
     \<and> deleteItem k (w1, s1) = Inr (w2, s1) \<and> nodes w2 = nodes w1
     \<and> (map_of (items s) k = None \<longrightarrow> s1 = s)"
  by (simp add: deleteItem_def Let_def getItem_delete save_twice_nodes delete_idem)
     (simp add: delete_absent)

theorem deleteItem_then_absent_witness:
  "(\<exists>w1 s1 w2.
      deleteItem ''item-1'' (first_run, synced_store) = Inr (w1, s1) \<and> getItem s1 ''item-1'' = None
      \<and> deleteItem ''item-1'' (w1, s1) = Inr (w2, s1) \<and> nodes w2 = nodes w1
      \<and> s1 = new_store)
   \<and> map_of (items synced_store) ''item-9'' = None
   \<and> (\<exists>w1. deleteItem ''item-9'' (first_run, synced_store) = Inr (w1, synced_store))"
proof -
  have absent: "map_of (items synced_store) ''item-9'' = None"
    by (simp add: synced_store_def)
  show ?thesis
    using deleteItem_then_absent [of "''item-1''" first_run synced_store]
      deleteItem_then_absent [of "''item-9''" first_run synced_store] absent
    by (auto simp: deleteItem_def Let_def synced_store_def new_store_def)
qed

section \<open>The gateway\<close>

text \<open>
  C9. The request that \<open>createLinkToken\<close> hands to the provider has the products
  \<open>[transactions]\<close>, the countries \<open>[US]\<close> and the language \<open>en\<close> when the
  option is absent. It has a \<open>webhook\<close> exactly when the options or the configuration
  supply one, the option's if there is one and the configuration's otherwise; likewise
  \<open>redirect_uri\<close>.
\<close>

theorem createLinkToken_request:
  "createLinkToken client config options =
     (case client (link_request config options) of
        Inl e \<Rightarrow> Inl e
      | Inr data \<Rightarrow> Inr \<lparr>linkToken = link_token data, res_expiration = expiration data,
                          requestId = request_id data\<rparr>)
   \<and> (opt_products options = None \<longrightarrow> products (link_request config options) = [''transactions''])
   \<and> (opt_countryCodes options = None \<longrightarrow> country_codes (link_request config options) = [''US''])
   \<and> (opt_language options = None \<longrightarrow> language (link_request config options) = ''en'')
   \<and> (webhook (link_request config options) \<noteq> None
        \<longleftrightarrow> opt_webhookUrl options \<noteq> None \<or> cfg_webhookUrl config \<noteq> None)
   \<and> (\<forall>u. opt_webhookUrl options = Some u \<longrightarrow> webhook (link_request config options) = Some u)
   \<and> (opt_webhookUrl options = None
        \<longrightarrow> webhook (link_request config options) = cfg_webhookUrl config)
   \<and> (redirect_uri (link_request config options) \<noteq> None
        \<longleftrightarrow> opt_redirectUri options \<noteq> None \<or> cfg_redirectUri config \<noteq> None)
   \<and> (\<forall>u. opt_redirectUri options = Some u
        \<longrightarrow> redirect_uri (link_request config options) = Some u)
   \<and> (opt_redirectUri options = None
        \<longrightarrow> redirect_uri (link_request config options) = cfg_redirectUri config)"
  by (auto simp: createLinkToken_def link_request_def or_else_def coalesce_def
      Products_Transactions_def CountryCode_Us_def split: option.splits)

theorem createLinkToken_request_witness:
  "link_request env_config bare_options =
     \<lparr>client_user_id = ''user-1'', client_name = ''BOA Statement Parser'',
      products = [''transactions''], country_codes = [''US''], language = ''en'',
      webhook = Some ''https://hooks.example/plaid'',
      redirect_uri = Some ''https://app.example/cb'', access_token = None\<rparr>
   \<and> link_request no_config webhook_options =
     \<lparr>client_user_id = ''user-2'', client_name = ''BOA Statement Parser'',
      products = [''auth''], country_codes = [''US''], language = ''fr'',
      webhook = Some ''https://app.example/hook'',
      redirect_uri = None, access_token = Some ''access-sandbox-1''\<rparr>
   \<and> createLinkToken
         (\<lambda>r. Inr \<lparr>link_token = ''link-sandbox-1'', expiration = ''2024-03-01T14:00:00Z'',
                     request_id = ''req-7''\<rparr>) env_config bare_options
       = Inr \<lparr>linkToken = ''link-sandbox-1'', res_expiration = ''2024-03-01T14:00:00Z'',
              requestId = ''req-7''\<rparr>"
  using createLinkToken_request
      [of "\<lambda>r. Inr \<lparr>link_token = ''link-sandbox-1'', expiration = ''2024-03-01T14:00:00Z'',
                        request_id = ''req-7''\<rparr>" env_config bare_options]
    createLinkToken_request [of "\<lambda>r. Inl TypeError" no_config webhook_options]
  by (simp add: link_request_def bare_options_def env_config_def webhook_options_def
      no_config_def or_else_def coalesce_def Products_Transactions_def CountryCode_Us_def)

text \<open>
  C10. Whenever the provider's call returns, \<open>removeItem\<close> returns
  \<open>removed = True\<close> with the response's request id, for every access token; two
  responses with the same request id give the same result, whatever else they hold.
\<close>

theorem removeItem_always_removed:
  "itemRemove token = Inr data \<Longrightarrow> itemRemove' token' = Inr data' \<Longrightarrow>
   remove_request_id data' = remove_request_id data \<Longrightarrow>
     removeItem itemRemove token = Inr \<lparr>removed = True, removed_requestId = remove_request_id data\<rparr>
     \<and> removeItem itemRemove' token' = removeItem itemRemove token"
  by (simp add: removeItem_def)

theorem removeItem_always_removed_witness:
  "removeItem (\<lambda>t. Inr \<lparr>remove_request_id = ''req-1''\<rparr>) ''access-sandbox-1''
     = Inr \<lparr>removed = True, removed_requestId = ''req-1''\<rparr>
   \<and> removeItem (\<lambda>t. Inr \<lparr>remove_request_id = ''req-1'', \<dots> = ''ITEM_NOT_FOUND''\<rparr>) ''access-other''
     = removeItem (\<lambda>t. Inr \<lparr>remove_request_id = ''req-1''\<rparr>) ''access-sandbox-1''"
  using removeItem_always_removed
    [of "\<lambda>t. Inr \<lparr>remove_request_id = ''req-1''\<rparr>" "''access-sandbox-1''"
        "\<lparr>remove_request_id = ''req-1''\<rparr>"
        "\<lambda>t. Inr \<lparr>remove_request_id = ''req-1'', \<dots> = ''ITEM_NOT_FOUND''\<rparr>" "''access-other''"
        "\<lparr>remove_request_id = ''req-1'', \<dots> = ''ITEM_NOT_FOUND''\<rparr>"]
  by simp

section \<open>Updating an item\<close>

lemma updateItem_present:
  "getItem s k = Some (Item old) \<Longrightarrow>
     updateItem now k u (w, s) =
       Inr (save w (s\<lparr>items :=
                AList.update k (Item ((spread old u)\<lparr>updatedAt := now\<rparr>)) (items s)\<rparr>),
            s\<lparr>items := AList.update k (Item ((spread old u)\<lparr>updatedAt := now\<rparr>)) (items s)\<rparr>)"
  by (simp add: updateItem_def getItem_Item Let_def)

lemma updateItem_other:
  "k' \<noteq> k \<Longrightarrow>
     \<exists>w' s'. updateItem now k u (w, s) = Inr (w', s') \<and> getItem s' k' = getItem s k'"
  by (cases "map_of (items s) k") (simp_all add: updateItem_def Let_def getItem_update_other)

text \<open>
  C3 (as amended). For an item in the store, \<open>updateSyncCursor\<close> followed by
  \<open>getItem\<close> returns a record whose \<open>syncCursor\<close> is the new cursor, whose
  \<open>lastSyncAt\<close> is the clock reading of the call, and whose \<open>createdAt\<close> is
  unchanged. The new \<open>lastSyncAt\<close> is strictly greater than the previous one when
  that clock reading is.
\<close>

theorem updateSyncCursor_then_getItem:
  "getItem s k = Some (Item old) \<Longrightarrow>
     \<exists>w' s' new. updateSyncCursor now later k cursor (w, s) = Inr (w', s')
       \<and> getItem s' k = Some (Item new)
       \<and> syncCursor new = Some cursor
       \<and> lastSyncAt new = Some now
       \<and> createdAt new = createdAt old
       \<and> (\<forall>t. lastSyncAt old = Some t \<and> t < now \<longrightarrow> (\<exists>t'. lastSyncAt new = Some t' \<and> t < t'))"
  by (simp add: updateSyncCursor_def updateItem_present getItem_update spread_def no_updates_def
      or_else_def)

theorem updateSyncCursor_then_getItem_witness:
  "\<exists>w' s' new. updateSyncCursor ''2024-03-02T09:30:00.000Z'' ''2024-03-02T09:30:00.001Z''
        ''item-1'' ''cursor-2'' (first_run, synced_store) = Inr (w', s')
     \<and> getItem s' ''item-1'' = Some (Item new)
     \<and> syncCursor new = Some ''cursor-2''
     \<and> lastSyncAt new = Some ''2024-03-02T09:30:00.000Z''
     \<and> createdAt new = ''2024-01-01T00:00:00.000Z''
     \<and> lastSyncAt synced_item = Some ''2024-03-01T10:00:00.000Z''
     \<and> ''2024-03-01T10:00:00.000Z'' < ''2024-03-02T09:30:00.000Z''"
proof -
  have present: "getItem synced_store ''item-1'' = Some (Item synced_item)"
    by (simp add: getItem_def synced_store_def)
  show ?thesis
    using updateSyncCursor_then_getItem [OF present, of "''2024-03-02T09:30:00.000Z''"
        "''2024-03-02T09:30:00.001Z''" "''cursor-2''" first_run]
    by (auto simp: synced_item_def sandbox_item_def)
qed

text \<open>
  C3 as written fails: a call in the millisecond of the previous sync leaves
  \<open>lastSyncAt\<close> equal to what it was, not strictly greater.
\<close>

theorem lastSyncAt_not_strictly_greater:
  "(case updateSyncCursor ''2024-03-01T10:00:00.000Z'' ''2024-03-01T10:00:00.000Z''
          ''item-1'' ''cursor-2'' (first_run, synced_store) of
      Inl e \<Rightarrow> False
    | Inr ws \<Rightarrow>
       (case (getItem synced_store ''item-1'', getItem (snd ws) ''item-1'') of
          (Some (Item old), Some (Item new)) \<Rightarrow>
            (case (lastSyncAt old, lastSyncAt new) of
               (Some t, Some t') \<Rightarrow> \<not> t < t'
             | _ \<Rightarrow> False)
        | _ \<Rightarrow> False))"
  by (simp add: updateSyncCursor_def updateItem_def Let_def getItem_def synced_store_def
      synced_item_def sandbox_item_def spread_def no_updates_def or_else_def)


text \<open>
  C4 (as amended). On an existing item, \<open>updateItem\<close>, \<open>updateSyncCursor\<close> and
  \<open>updateStatus\<close> leave a record whose \<open>updatedAt\<close> is the clock reading of the
  call. \<open>updateSyncCursor\<close> and \<open>updateStatus\<close> keep \<open>createdAt\<close>;
  \<open>updateItem\<close> keeps it unless the update supplies one. \<open>saveItem\<close> stores the
  record it is given, with that record's \<open>updatedAt\<close> and \<open>createdAt\<close>.
\<close>

theorem updates_stamp_updatedAt:
  "getItem s k = Some (Item old) \<Longrightarrow>
     (\<exists>w' s' new. updateItem now k u (w, s) = Inr (w', s') \<and> getItem s' k = Some (Item new)
        \<and> updatedAt new = now \<and> createdAt new = or_else (set_createdAt u) (createdAt old))
   \<and> (\<exists>w' s' new. updateSyncCursor now later k cursor (w, s) = Inr (w', s')
        \<and> getItem s' k = Some (Item new) \<and> updatedAt new = later \<and> createdAt new = createdAt old)
   \<and> (\<exists>w' s' new. updateStatus now k st (w, s) = Inr (w', s') \<and> getItem s' k = Some (Item new)
        \<and> updatedAt new = now \<and> createdAt new = createdAt old)
   \<and> (\<exists>w' s' new. saveItem item (w, s) = Inr (w', s') \<and> getItem s' (itemId item) = Some (Item new)
        \<and> updatedAt new = updatedAt item \<and> createdAt new = createdAt item)"
  by (simp add: updateSyncCursor_def updateStatus_def updateItem_present getItem_update
      spread_def no_updates_def or_else_def saveItem_def Let_def)

theorem updates_stamp_updatedAt_witness:
  "(\<exists>w' s' new. updateItem ''2024-03-02T09:30:00.000Z'' ''item-1''
        (no_updates\<lparr>set_institutionName := Some ''First Platypus Bank''\<rparr>)
        (first_run, synced_store) = Inr (w', s') \<and> getItem s' ''item-1'' = Some (Item new)
      \<and> updatedAt new = ''2024-03-02T09:30:00.000Z''
      \<and> createdAt new = ''2024-01-01T00:00:00.000Z'')
   \<and> (\<exists>w' s' new. updateSyncCursor ''2024-03-02T09:30:00.000Z'' ''2024-03-02T09:30:00.001Z''
        ''item-1'' ''cursor-2'' (first_run, synced_store) = Inr (w', s')
      \<and> getItem s' ''item-1'' = Some (Item new)
      \<and> updatedAt new = ''2024-03-02T09:30:00.001Z''
      \<and> createdAt new = ''2024-01-01T00:00:00.000Z'')
   \<and> (\<exists>w' s' new. updateStatus ''2024-03-02T09:30:00.000Z'' ''item-1'' ''error''
        (first_run, synced_store) = Inr (w', s') \<and> getItem s' ''item-1'' = Some (Item new)
      \<and> updatedAt new = ''2024-03-02T09:30:00.000Z''
      \<and> createdAt new = ''2024-01-01T00:00:00.000Z'')
   \<and> (\<exists>w' s' new. saveItem replaced_item (first_run, synced_store) = Inr (w', s')
      \<and> getItem s' ''item-1'' = Some (Item new)
      \<and> updatedAt new = ''2024-03-01T10:00:00.000Z''
      \<and> createdAt new = ''2025-06-01T00:00:00.000Z'')"
proof -
  have present: "getItem synced_store ''item-1'' = Some (Item synced_item)"
    by (simp add: getItem_def synced_store_def)
  show ?thesis
    using updates_stamp_updatedAt [OF present, of "''2024-03-02T09:30:00.000Z''"
        "no_updates\<lparr>set_institutionName := Some ''First Platypus Bank''\<rparr>" first_run
        "''2024-03-02T09:30:00.001Z''" "''cursor-2''" "''error''" replaced_item]
    by (auto simp: synced_item_def sandbox_item_def replaced_item_def no_updates_def
        or_else_def)
qed

text \<open>
  C4 as written fails: \<open>saveItem\<close> over an existing item can leave \<open>updatedAt\<close>
  as it was and change \<open>createdAt\<close>.
\<close>

theorem saveItem_replaces_createdAt:
  "(case saveItem replaced_item (first_run, synced_store) of
      Inl e \<Rightarrow> False
    | Inr ws \<Rightarrow>
       (case (getItem synced_store ''item-1'', getItem (snd ws) ''item-1'') of
          (Some (Item old), Some (Item new)) \<Rightarrow> updatedAt new = updatedAt old \<and> createdAt new \<noteq> createdAt old
        | _ \<Rightarrow> False))"
  by (simp add: saveItem_def Let_def getItem_def synced_store_def replaced_item_def
      synced_item_def sandbox_item_def)

text \<open>
  C5 (as amended). The \<open>accessToken\<close> of an item in the store is unchanged by
  \<open>updateSyncCursor\<close> and \<open>updateStatus\<close>, by an \<open>updateItem\<close> whose fields
  do not include \<open>accessToken\<close>, by a \<open>deleteItem\<close> of another id and by a
  \<open>saveItem\<close> of another id. A \<open>saveItem\<close> of the same id replaces the record,
  token included, and an \<open>updateItem\<close> that supplies an \<open>accessToken\<close> overwrites
  it.
\<close>

theorem accessToken_kept:
  "getItem s k = Some (Item old) \<Longrightarrow>
     (set_accessToken u = None \<longrightarrow>
        (\<exists>w' s' new. updateItem now k' u (w, s) = Inr (w', s') \<and> getItem s' k = Some (Item new)
           \<and> accessToken new = accessToken old))
   \<and> (\<exists>w' s' new. updateSyncCursor now later k' cursor (w, s) = Inr (w', s')
        \<and> getItem s' k = Some (Item new) \<and> accessToken new = accessToken old)
   \<and> (\<exists>w' s' new. updateStatus now k' st (w, s) = Inr (w', s') \<and> getItem s' k = Some (Item new)
        \<and> accessToken new = accessToken old)
   \<and> (k' \<noteq> k \<longrightarrow> (\<exists>w' s'. deleteItem k' (w, s) = Inr (w', s') \<and> getItem s' k = Some (Item old)))
   \<and> (itemId item \<noteq> k \<longrightarrow>
        (\<exists>w' s'. saveItem item (w, s) = Inr (w', s') \<and> getItem s' k = Some (Item old)))
   \<and> (itemId item = k \<longrightarrow>
        (\<exists>w' s'. saveItem item (w, s) = Inr (w', s') \<and> getItem s' k = Some (Item item)))
   \<and> (\<forall>token. set_accessToken u = Some token \<longrightarrow>
        (\<exists>w' s' new. updateItem now k u (w, s) = Inr (w', s') \<and> getItem s' k = Some (Item new)
           \<and> accessToken new = token))"
proof -
  assume present: "getItem s k = Some (Item old)"
  have upd: "\<exists>w' s' new. updateItem t k' v (w, s) = Inr (w', s') \<and> getItem s' k = Some (Item new)
      \<and> accessToken new = accessToken old" if "set_accessToken v = None" for v t
  proof (cases "k' = k")
    case True
    then show ?thesis
      using present that by (simp add: updateItem_present getItem_update spread_def or_else_def)
  next
    case False
    then have "k \<noteq> k'" by simp
    from updateItem_other [OF this, of t v w s] present show ?thesis by auto
  qed
  have "\<exists>w' s' new. updateItem now k u (w, s) = Inr (w', s') \<and> getItem s' k = Some (Item new)
      \<and> accessToken new = token" if "set_accessToken u = Some token" for token
    using present that by (simp add: updateItem_present getItem_update spread_def or_else_def)
  moreover have "\<exists>w' s'. deleteItem k' (w, s) = Inr (w', s') \<and> getItem s' k = Some (Item old)"
    if "k' \<noteq> k"
    using present that by (simp add: deleteItem_def Let_def getItem_delete)
  moreover have "\<exists>w' s'. saveItem item (w, s) = Inr (w', s') \<and> getItem s' k = Some (Item old)"
    if "itemId item \<noteq> k"
    using present that by (simp add: saveItem_def Let_def getItem_update)
  moreover have "\<exists>w' s'. saveItem item (w, s) = Inr (w', s') \<and> getItem s' k = Some (Item item)"
    if "itemId item = k"
    using that by (simp add: saveItem_def Let_def getItem_update)
  ultimately show ?thesis
    using upd [of u now] upd [of "no_updates\<lparr>set_status := Some st\<rparr>" now]
      upd [of "no_updates\<lparr>set_syncCursor := Some (Some cursor), set_lastSyncAt := Some (Some now)\<rparr>"
        later]
    unfolding updateSyncCursor_def updateStatus_def
    by (simp add: no_updates_def)
qed


theorem accessToken_kept_witness:
  "(\<exists>w' s' new. updateItem ''2024-03-02T09:30:00.000Z'' ''item-1''
        (no_updates\<lparr>set_status := Some ''error''\<rparr>) (first_run, synced_store) = Inr (w', s')
      \<and> getItem s' ''item-1'' = Some (Item new) \<and> accessToken new = ''access-sandbox-1'')
   \<and> (\<exists>w' s' new. updateSyncCursor ''2024-03-02T09:30:00.000Z'' ''2024-03-02T09:30:00.001Z''
        ''item-1'' ''cursor-2'' (first_run, synced_store) = Inr (w', s')
      \<and> getItem s' ''item-1'' = Some (Item new) \<and> accessToken new = ''access-sandbox-1'')
   \<and> (\<exists>w' s' new. updateStatus ''2024-03-02T09:30:00.000Z'' ''item-1'' ''error''
        (first_run, synced_store) = Inr (w', s')
      \<and> getItem s' ''item-1'' = Some (Item new) \<and> accessToken new = ''access-sandbox-1'')
   \<and> (\<exists>w' s'. deleteItem ''item-2'' (first_run, synced_store) = Inr (w', s')
      \<and> getItem s' ''item-1'' = Some (Item synced_item))
   \<and> (\<exists>w' s'. saveItem second_item (first_run, synced_store) = Inr (w', s')
      \<and> getItem s' ''item-1'' = Some (Item synced_item))
   \<and> (\<exists>w' s'. saveItem replaced_item (first_run, synced_store) = Inr (w', s')
      \<and> getItem s' ''item-1'' = Some (Item replaced_item))
   \<and> (\<exists>w' s' new. updateItem ''2024-03-02T09:30:00.000Z'' ''item-1''
        (no_updates\<lparr>set_accessToken := Some ''access-other''\<rparr>) (first_run, synced_store)
        = Inr (w', s')
      \<and> getItem s' ''item-1'' = Some (Item new) \<and> accessToken new = ''access-other'')"
proof -
  have present: "getItem synced_store ''item-1'' = Some (Item synced_item)"
    by (simp add: getItem_def synced_store_def)
  show ?thesis
    using accessToken_kept [OF present, of "no_updates\<lparr>set_status := Some ''error''\<rparr>"
        "''2024-03-02T09:30:00.000Z''" "''item-1''" first_run "''2024-03-02T09:30:00.001Z''"
        "''cursor-2''" "''error''" replaced_item]
      accessToken_kept [OF present, of "no_updates\<lparr>set_accessToken := Some ''access-other''\<rparr>"
        "''2024-03-02T09:30:00.000Z''" "''item-2''" first_run "''2024-03-02T09:30:00.001Z''"
        "''cursor-2''" "''error''" second_item]
    by (auto simp: synced_item_def sandbox_item_def replaced_item_def second_item_def
        no_updates_def)
qed

text \<open>
  C5 as written fails: one \<open>updateItem\<close>, with no delete before it, gives the item
  another \<open>accessToken\<close>.
\<close>

theorem updateItem_changes_accessToken:
  "(case updateItem ''2024-03-02T09:30:00.000Z'' ''item-1''
          (no_updates\<lparr>set_accessToken := Some ''access-other''\<rparr>) (first_run, synced_store) of
      Inl e \<Rightarrow> False
    | Inr ws \<Rightarrow>
       (case (getItem synced_store ''item-1'', getItem (snd ws) ''item-1'') of
          (Some (Item old), Some (Item new)) \<Rightarrow> accessToken new \<noteq> accessToken old
        | _ \<Rightarrow> False))"
  by (simp add: updateItem_def Let_def getItem_def synced_store_def
      synced_item_def sandbox_item_def spread_def no_updates_def or_else_def)

section \<open>Constructing a store\<close>

lemma readFileSync_existsSync: "readFileSync w p = Inr text \<Longrightarrow> existsSync w p"
  by (auto simp: readFileSync_def existsSync_def split: option.splits node.splits if_splits)

lemma JSON_parse_empty: "JSON_parse [] = Throws SyntaxError"
  by (simp add: JSON_parse_def)

text \<open>
  C7 (as amended). The constructor never throws. It returns a store without items over
  a path where there is no file, over a file that cannot be read, over an empty file,
  over a file whose text \<^verbatim>\<open>JSON.parse\<close> rejects, and over the text \<^verbatim>\<open>null\<close>.
  Any other text that \<^verbatim>\<open>JSON.parse\<close> accepts is loaded as it is, with no check that
  it is a record of items: the store has one entry for each own property of the parsed
  value.
\<close>

theorem constructor_never_throws:
  "(\<forall>e. FilePlaidItemStore w p \<noteq> Throws e)
   \<and> (\<not> existsSync w p \<longrightarrow> FilePlaidItemStore w p = Returns \<lparr>items = [], filePath = p\<rparr>)
   \<and> (\<forall>e. readFileSync w p = Inl e \<longrightarrow> FilePlaidItemStore w p = Returns \<lparr>items = [], filePath = p\<rparr>)
   \<and> (readFileSync w p = Inr [] \<longrightarrow> FilePlaidItemStore w p = Returns \<lparr>items = [], filePath = p\<rparr>)
   \<and> (\<forall>text e. readFileSync w p = Inr text \<and> JSON_parse text = Throws e
        \<longrightarrow> FilePlaidItemStore w p = Returns \<lparr>items = [], filePath = p\<rparr>)
   \<and> (\<forall>text. readFileSync w p = Inr text \<and> JSON_parse text = Returns JNull
        \<longrightarrow> FilePlaidItemStore w p = Returns \<lparr>items = [], filePath = p\<rparr>)
   \<and> (\<forall>text v. readFileSync w p = Inr text \<and> JSON_parse text = Returns v \<and> v \<noteq> JNull
        \<longrightarrow> FilePlaidItemStore w p =
              Returns \<lparr>items = add_all (map (\<lambda>(k, x). (k, classify x)) (own_properties v)),
                       filePath = p\<rparr>)
   \<and> getAllItems \<lparr>items = [], filePath = p\<rparr> = []"
proof -
  have never: "FilePlaidItemStore w p \<noteq> Throws e" for e
    by (simp add: FilePlaidItemStore_def load_def split: outcome.splits option.splits)
  have missing: "FilePlaidItemStore w p = Returns \<lparr>items = [], filePath = p\<rparr>"
    if "\<not> existsSync w p"
    using that by (simp add: FilePlaidItemStore_def load_def load_try_def)
  have unreadable: "FilePlaidItemStore w p = Returns \<lparr>items = [], filePath = p\<rparr>"
    if "readFileSync w p = Inl e" for e
    using that by (simp add: FilePlaidItemStore_def load_def load_try_def)
  have rejected: "FilePlaidItemStore w p = Returns \<lparr>items = [], filePath = p\<rparr>"
    if "readFileSync w p = Inr data" "JSON_parse data = Throws e" for data e
    using that by (simp add: FilePlaidItemStore_def load_def load_try_def)
  have null: "FilePlaidItemStore w p = Returns \<lparr>items = [], filePath = p\<rparr>"
    if "readFileSync w p = Inr data" "JSON_parse data = Returns JNull" for data
    using that by (simp add: FilePlaidItemStore_def load_def load_try_def Object_entries_def)
  have loaded: "FilePlaidItemStore w p =
      Returns \<lparr>items = add_all (map (\<lambda>(k, x). (k, classify x)) (own_properties v)), filePath = p\<rparr>"
    if "readFileSync w p = Inr data" "JSON_parse data = Returns v" "v \<noteq> JNull" for data v
    using that readFileSync_existsSync [of w p data]
    by (simp add: FilePlaidItemStore_def load_def load_try_def Object_entries_def)
  from never missing unreadable rejected [of "[]"] rejected null loaded show ?thesis
    by (simp add: JSON_parse_empty getAllItems_def)
qed

lemma existsSync_first_run: "\<not> existsSync first_run store_path"
  by (simp add: existsSync_def first_run_def store_path_def)

lemma readFileSync_later_run:
  "readFileSync (later_run\<lparr>nodes := (nodes later_run)(store_path \<mapsto> File text)\<rparr>) store_path
     = Inr text"
  by (simp add: readFileSync_def ancestors_store_path later_run_def first_run_def)
     (simp add: store_path_def)

lemma JSON_parse_stray_text: "JSON_parse stray_text = Returns (JObj [(''a'', JNum ''1'')])"
  by code_simp

theorem constructor_never_throws_witness:
  "FilePlaidItemStore first_run store_path = Returns new_store
   \<and> FilePlaidItemStore locked_run store_path = Returns new_store
   \<and> FilePlaidItemStore empty_file_run store_path = Returns new_store
   \<and> FilePlaidItemStore truncated_run store_path = Returns new_store
   \<and> FilePlaidItemStore stray_run store_path
       = Returns \<lparr>items = [(''a'', Stray (JNum ''1''))], filePath = store_path\<rparr>
   \<and> getAllItems new_store = []"
proof -
  have unreadable: "readFileSync locked_run store_path = Inl (SystemError ''EACCES'')"
    by (simp add: readFileSync_def ancestors_store_path locked_run_def later_run_def
        first_run_def)
       (simp add: store_path_def)
  have empty: "readFileSync empty_file_run store_path = Inr []"
    unfolding empty_file_run_def by (rule readFileSync_later_run)
  have truncated: "readFileSync truncated_run store_path = Inr truncated_text"
    unfolding truncated_run_def by (rule readFileSync_later_run)
  have malformed: "JSON_parse truncated_text = Throws SyntaxError"
    by code_simp
  have stray: "readFileSync stray_run store_path = Inr stray_text"
    unfolding stray_run_def by (rule readFileSync_later_run)
  have entries: "add_all (map (\<lambda>(k, x). (k, classify x)) (own_properties (JObj [(''a'', JNum ''1'')])))
      = [(''a'', Stray (JNum ''1''))]"
    by (simp add: add_all_def classify_def as_item_def)
  show ?thesis
    using constructor_never_throws [of first_run store_path] existsSync_first_run
      constructor_never_throws [of locked_run store_path] unreadable
      constructor_never_throws [of empty_file_run store_path] empty
      constructor_never_throws [of truncated_run store_path] truncated malformed
      constructor_never_throws [of stray_run store_path] stray JSON_parse_stray_text entries
    by (simp add: new_store_def)
qed

text \<open>
  C7 as written fails: the text \<^verbatim>\<open>{"a": 1}\<close> is not a record of items, and the store
  constructed over it has one entry, the number \<^verbatim>\<open>1\<close> under the key \<^verbatim>\<open>a\<close>, which
  \<^verbatim>\<open>getAllItems\<close> returns.
\<close>

theorem stray_content_is_loaded:
  "readFileSync stray_run store_path = Inr stray_text
   \<and> JSON_parse stray_text = Returns (JObj [(''a'', JNum ''1'')])
   \<and> as_item (JNum ''1'') = None
   \<and> (case FilePlaidItemStore stray_run store_path of
        Returns s \<Rightarrow> getAllItems s = [Stray (JNum ''1'')] \<and> getAllItems s \<noteq> []
      | _ \<Rightarrow> False)"
proof -
  have stray: "readFileSync stray_run store_path = Inr stray_text"
    unfolding stray_run_def by (rule readFileSync_later_run)
  then have "existsSync stray_run store_path"
    by (rule readFileSync_existsSync)
  then show ?thesis
    using stray
    by (simp add: FilePlaidItemStore_def load_def load_try_def JSON_parse_stray_text
        Object_entries_def add_all_def classify_def as_item_def getAllItems_def)
qed

section \<open>Parsing what was serialized\<close>

subsection \<open>The tokens of the text\<close>

lemma hex_value_hex_digit: "k < 16 \<Longrightarrow> hex_value (hex_digit k) = Some k"
  by (auto simp: hex_value_def hex_digit_def Let_def)

lemma code_unit_control:
  "n < 32 \<Longrightarrow> code_unit CHR ''0'' CHR ''0'' (hex_digit (n div 16)) (hex_digit (n mod 16)) = Some n"
proof -
  assume "n < 32"
  then have "n div 16 < 16" by simp
  have z: "hex_value CHR ''0'' = Some 0" by (simp add: hex_value_def)
  show ?thesis
    by (simp add: code_unit_def z hex_value_hex_digit \<open>n div 16 < 16\<close>)
qed

lemma scan_string_quote_char:
  "scan_string (quote_char c @ cs) = prepend c (scan_string cs)"
proof (cases "(of_char c :: nat) < 32 \<and> c \<notin> {CHR 0x08, CHR 0x09, CHR 0x0A, CHR 0x0C, CHR 0x0D}")
  case True
  then have "code_unit CHR ''0'' CHR ''0'' (hex_digit (of_char c div 16)) (hex_digit (of_char c mod 16))
      = Some (of_char c)"
    by (intro code_unit_control) simp
  moreover have "(of_char c :: nat) < 256" using True by simp
  moreover have "c \<noteq> CHR 0x22"
  proof
    assume "c = CHR 0x22"
    then have "of_char c = (34 :: nat)" by simp
    with True show False by simp
  qed
  moreover have "c \<noteq> CHR 0x5C"
  proof
    assume "c = CHR 0x5C"
    then have "of_char c = (92 :: nat)" by simp
    with True show False by simp
  qed
  ultimately show ?thesis
    using True by (simp add: quote_char_def)
next
  case False
  then show ?thesis
    by (auto simp: quote_char_def unescape_def)
qed

lemma scan_string_quoted:
  "scan_string (concat (map quote_char s) @ CHR 0x22 # rest) = Inr (s, False, rest)"
  by (induction s) (simp_all add: scan_string_quote_char prepend_def)

lemma mark_False [simp]: "mark False r = r"
  by (simp add: mark_def split: sum.splits)

lemma tokenize_QuoteJSONString:
  "tokenize (QuoteJSONString s @ rest) = emit (TString s) (tokenize rest)"
  by (simp add: QuoteJSONString_def scan_string_quoted is_ws_def)

lemma tokenize_spaces: "tokenize (replicate n CHR '' '' @ rest) = tokenize rest"
  by (induction n) (simp_all add: is_ws_def)


lemma emit_all_simps [simp]:
  "emit_all [] r = r" "emit_all (t # ts) r = emit t (emit_all ts r)"
  "emit_all (ts @ us) r = emit_all ts (emit_all us r)"
  by (simp_all add: emit_all_def)

lemma emit_all_Inr: "emit_all ts (Inr (us, wide)) = Inr (ts @ us, wide)"
  by (induction ts) (simp_all add: emit_def)

lemma tokenize_join_lines:
  assumes "\<And>x rest. x \<in> set xs \<Longrightarrow> tokenize (f x @ rest) = emit_all (g x) (tokenize rest)"
  shows "tokenize (join_lines (map f xs) @ rest) = emit_all (commas (map g xs)) (tokenize rest)"
  using assms
proof (induction xs rule: induct_list012)
  case 1
  then show ?case by simp
next
  case (2 x)
  then show ?case by simp
next
  case (3 x y ys)
  have "tokenize (join_lines (map f (x # y # ys)) @ rest)
      = tokenize (f x @ CHR '','' # CHR 0x0A # join_lines (map f (y # ys)) @ rest)"
    by simp
  also have "\<dots> = emit_all (g x) (tokenize (CHR '','' # CHR 0x0A # join_lines (map f (y # ys)) @ rest))"
    using "3.prems" by simp
  also have "tokenize (CHR '','' # CHR 0x0A # join_lines (map f (y # ys)) @ rest)
      = emit TComma (tokenize (join_lines (map f (y # ys)) @ rest))"
    by (simp add: is_ws_def)
  also have "tokenize (join_lines (map f (y # ys)) @ rest)
      = emit_all (commas (map g (y # ys))) (tokenize rest)"
    using "3.prems" by (intro "3.IH"(2)) simp
  finally show ?case by simp
qed


lemma tokenize_SerializeJSON:
  "strings_only v \<Longrightarrow>
     tokenize (SerializeJSON ind v @ rest) = emit_all (tokens_of v) (tokenize rest)"
proof (induction v arbitrary: ind rest rule: strings_only.induct)
  case (1 s)
  then show ?case by (simp add: tokenize_QuoteJSONString)
next
  case (2 ps)
  show ?case
  proof (cases "ps = []")
    case True
    then show ?thesis by (simp add: is_ws_def)
  next
    case False
    let ?f = "\<lambda>(k, v). replicate (ind + 2) CHR '' '' @ QuoteJSONString k @ '': ''
                @ SerializeJSON (ind + 2) v"
    let ?g = "\<lambda>(k, v). TString k # TColon # tokens_of v"
    have member: "tokenize (?f x @ r) = emit_all (?g x) (tokenize r)" if "x \<in> set ps" for x r
    proof -
      obtain k v where x: "x = (k, v)" by (cases x)
      with that "2.prems" have "strings_only v"
        by (auto simp: list_all_iff)
      with "2.IH" [OF that x [symmetric]] show ?thesis
        by (simp add: x tokenize_spaces tokenize_QuoteJSONString is_ws_def)
    qed
    have "tokenize (SerializeJSON ind (JObj ps) @ rest)
        = emit TLBrace (tokenize (join_lines (map ?f ps)
            @ (CHR 0x0A # replicate ind CHR '' '' @ CHR ''}'' # rest)))"
      using False by (simp add: is_ws_def)
    also have "tokenize (join_lines (map ?f ps) @ (CHR 0x0A # replicate ind CHR '' '' @ CHR ''}'' # rest))
        = emit_all (commas (map ?g ps)) (tokenize (CHR 0x0A # replicate ind CHR '' '' @ CHR ''}'' # rest))"
      using member by (rule tokenize_join_lines)
    also have "tokenize (CHR 0x0A # replicate ind CHR '' '' @ CHR ''}'' # rest)
        = emit TRBrace (tokenize rest)"
      by (simp add: is_ws_def tokenize_spaces)
    finally show ?thesis by simp
  qed
qed simp_all

subsection \<open>The value of the tokens\<close>

lemma commas_members:
  "commas ((TString k # TColon # tokens_of v)
       # map (\<lambda>(k, v). TString k # TColon # tokens_of v) ps)
     = TString k # TColon # tokens_of v @ member_tail ps"
  by (induction ps arbitrary: k v) (auto simp: member_tail_def)

lemma parse_members:
  assumes "\<And>k v st ts. (k, v) \<in> set ((k0, v0) # ps) \<Longrightarrow>
             parse_value st (tokens_of v @ ts) = parse_after v st ts"
  shows "parse_value (FObj acc k0 # st) (tokens_of v0 @ member_tail ps @ TRBrace # ts)
           = parse_after (JObj (fold (\<lambda>(k, v). AList.update k v) ((k0, v0) # ps) acc)) st ts"
  using assms
proof (induction ps arbitrary: acc k0 v0)
  case Nil
  then show ?case by (simp add: member_tail_def)
next
  case (Cons p ps)
  obtain k1 v1 where p: "p = (k1, v1)" by (cases p)
  have "parse_value (FObj acc k0 # st) (tokens_of v0 @ member_tail (p # ps) @ TRBrace # ts)
      = parse_after v0 (FObj acc k0 # st) (member_tail (p # ps) @ TRBrace # ts)"
    using Cons.prems [of k0 v0] by simp
  also have "\<dots> = parse_value (FObj (AList.update k0 v0 acc) k1 # st)
      (tokens_of v1 @ member_tail ps @ TRBrace # ts)"
    by (simp add: p member_tail_def)
  also have "\<dots> = parse_after
      (JObj (fold (\<lambda>(k, v). AList.update k v) ((k1, v1) # ps) (AList.update k0 v0 acc))) st ts"
    using Cons.prems by (intro Cons.IH) (auto simp: p)
  finally show ?case by (simp add: p)
qed

lemma update_fresh: "k \<notin> fst ` set al \<Longrightarrow> AList.update k v al = al @ [(k, v)]"
  by (induction al) auto

lemma fold_update_distinct:
  "distinct (map fst (acc @ ps)) \<Longrightarrow> fold (\<lambda>(k, v). AList.update k v) ps acc = acc @ ps"
proof (induction ps arbitrary: acc)
  case Nil
  then show ?case by simp
next
  case (Cons p ps)
  obtain k v where p: "p = (k, v)" by (cases p)
  from Cons.prems have "k \<notin> fst ` set acc" by (auto simp: p)
  then have "AList.update k v acc = acc @ [(k, v)]" by (rule update_fresh)
  moreover from Cons.prems have "distinct (map fst ((acc @ [(k, v)]) @ ps))" by (simp add: p)
  ultimately show ?case
    using Cons.IH [of "acc @ [(k, v)]"] by (simp add: p)
qed

lemma add_all_distinct: "distinct (map fst ps) \<Longrightarrow> add_all ps = ps"
  using fold_update_distinct [of "[]" ps] by (simp add: add_all_def)

lemma parse_value_tokens_of:
  "strings_only v \<Longrightarrow> parse_value st (tokens_of v @ ts) = parse_after v st ts"
proof (induction v arbitrary: st ts rule: strings_only.induct)
  case (1 s)
  then show ?case by simp
next
  case (2 ps)
  show ?case
  proof (cases ps)
    case Nil
    then show ?thesis by simp
  next
    case (Cons p ps')
    obtain k0 v0 where p: "p = (k0, v0)" by (cases p)
    have sub: "parse_value st' (tokens_of v @ ts') = parse_after v st' ts'"
      if "(k, v) \<in> set ((k0, v0) # ps')" for k v st' ts'
    proof -
      from that have "(k, v) \<in> set ps" by (simp add: Cons p)
      moreover with "2.prems" have "strings_only v" by (auto simp: list_all_iff)
      ultimately show ?thesis using "2.IH" [of "(k, v)" k v] by simp
    qed
    from "2.prems" have "distinct (map fst ps)" by simp
    then have "fold (\<lambda>(k, v). AList.update k v) ps [] = ps"
      using fold_update_distinct [of "[]" ps] by simp
    moreover have "parse_value st (tokens_of (JObj ps) @ ts)
        = parse_value (FObj [] k0 # st) (tokens_of v0 @ member_tail ps' @ TRBrace # ts)"
      by (simp add: Cons p commas_members del: commas.simps)
    ultimately show ?thesis
      using parse_members [of k0 v0 ps' "[]" st ts] sub by (simp add: Cons p)
  qed
qed simp_all

text \<open>\<open>JSON.parse\<close> gives back a value of strings that \<open>JSON.stringify\<close> wrote.\<close>

lemma JSON_parse_stringify:
  "strings_only v \<Longrightarrow> JSON_parse (JSON_stringify v) = Returns v"
proof -
  assume v: "strings_only v"
  then have "tokenize (SerializeJSON 0 v @ []) = emit_all (tokens_of v) (tokenize [])"
    by (rule tokenize_SerializeJSON)
  then have "tokenize (SerializeJSON 0 v) = Inr (tokens_of v, False)"
    by (simp add: emit_all_Inr)
  moreover from v have "parse_value [] (tokens_of v @ []) = parse_after v [] []"
    by (rule parse_value_tokens_of)
  ultimately show ?thesis
    by (simp add: JSON_parse_def JSON_stringify_def)
qed

section \<open>Restarting from the file\<close>

subsection \<open>Items through JSON\<close>

lemma strings_only_item_json: "strings_only (item_json item)"
  by (simp add: item_json_def optional_property_def split: option.splits)

lemma as_item_item_json: "as_item (item_json item) = Some item"
  by (cases "syncCursor item"; cases "lastSyncAt item")
     (simp_all add: as_item_def item_json_def optional_property_def item_keys_def
       required_def optional_def)

lemma only_items_iff:
  "only_items s \<longleftrightarrow> (\<forall>x\<in>set (items s). \<exists>item. snd x = Item item)"
proof -
  have "(case e of Item item \<Rightarrow> True | Stray v \<Rightarrow> False) \<longleftrightarrow> (\<exists>item. e = Item item)" for e
    by (cases e) simp_all
  then show ?thesis
    by (simp add: only_items_def list_all_iff)
qed

lemma classify_entry_json:
  "only_items \<lparr>items = its, filePath = p\<rparr> \<Longrightarrow>
     map ((\<lambda>(k, v). (k, classify v)) \<circ> (\<lambda>(k, e). (k, entry_json e))) its = its"
  by (induction its) (auto simp: only_items_def classify_def as_item_item_json split: entry.splits)

lemma keys_entry_json [simp]: "fst \<circ> (\<lambda>(k, e). (k, entry_json e)) = fst"
  by auto

lemma Object_fromEntries_distinct:
  "distinct (map fst its) \<Longrightarrow>
     Object_fromEntries its = JObj (map (\<lambda>(k, e). (k, entry_json e)) its)"
  by (simp add: Object_fromEntries_def add_all_distinct)

lemma strings_only_Object_fromEntries:
  "distinct (map fst its) \<Longrightarrow> only_items \<lparr>items = its, filePath = p\<rparr> \<Longrightarrow>
     strings_only (Object_fromEntries its)"
  by (auto simp: Object_fromEntries_distinct list_all_iff only_items_iff strings_only_item_json)

lemma load_try_written:
  assumes "nodes w p = Some (File (JSON_stringify (Object_fromEntries its)))"
    and "walk w (ancestors p) = None" and "\<not> locked w p"
    and "distinct (map fst its)" and "only_items \<lparr>items = its, filePath = p\<rparr>"
  shows "load_try w p = Returns (Some its)"
proof -
  have "JSON_parse (JSON_stringify (Object_fromEntries its)) = Returns (Object_fromEntries its)"
    using assms(4,5) by (intro JSON_parse_stringify strings_only_Object_fromEntries)
  then show ?thesis
    using assms
    by (simp add: load_try_def existsSync_def readFileSync_def Object_fromEntries_distinct
        Object_entries_def classify_entry_json add_all_distinct)
qed

lemma distinct_fold_update:
  "distinct (map fst acc) \<Longrightarrow> distinct (map fst (fold (\<lambda>(k, v). AList.update k v) es acc))"
  by (induction es arbitrary: acc) (auto simp: distinct_update)

lemma distinct_add_all: "distinct (map fst (add_all es))"
  by (simp add: add_all_def distinct_fold_update)

lemma FilePlaidItemStore_filePath:
  "FilePlaidItemStore w p = Returns s \<Longrightarrow> filePath s = p \<and> distinct (map fst (items s))"
  by (auto simp: FilePlaidItemStore_def load_def load_try_def distinct_add_all
      split: outcome.splits option.splits sum.splits if_splits)

subsection \<open>Writing under a path that can be written\<close>

lemma ancestors_smaller: "q \<in> set (ancestors p) \<Longrightarrow> path_size q < path_size p"
proof (induction p rule: ancestors.induct)
  case (1 p)
  show ?case
  proof (cases "p = ''/'' \<or> p = ''.''")
    case True
    with 1(2) show ?thesis by auto
  next
    case False
    then have below: "ancestors p = ancestors (dirname p) @ [dirname p]"
      by (simp add: ancestors_below)
    have step: "path_size (dirname p) < path_size p"
      using False by (simp add: path_size_dirname)
    from 1(2) below have "q = dirname p \<or> q \<in> set (ancestors (dirname p))"
      by auto
    then show ?thesis
    proof
      assume "q = dirname p"
      with step show ?thesis by simp
    next
      assume "q \<in> set (ancestors (dirname p))"
      with 1(1) [OF False] step show ?thesis by simp
    qed
  qed
qed

lemma not_above_itself: "p \<notin> set (ancestors p)"
  using ancestors_smaller [of p p] by auto

lemma plain_path_below: "plain_path p \<Longrightarrow> p \<noteq> ''/'' \<and> p \<noteq> ''.''"
  by (auto simp: plain_path_def)

lemma origin_not_path: "plain_path p \<Longrightarrow> origin p \<noteq> p"
  using plain_path_below [of p] by (auto simp: origin_def)

lemma can_make_directories: "\<forall>d\<in>set ds. nodes w d = Some Dir \<Longrightarrow> can_make w ds"
  by (induction ds) auto

lemma can_make_member:
  "can_make w ds \<Longrightarrow> d \<in> set ds \<Longrightarrow> nodes w d = Some Dir \<or> nodes w d = None"
  by (induction ds) auto

lemma can_make_more:
  assumes "can_make w ds" and "locked w' = locked w"
    and "\<And>x. nodes w' x = nodes w x \<or> (nodes w x = None \<and> nodes w' x = Some Dir)"
  shows "can_make w' ds"
  using assms(1)
proof (induction ds)
  case Nil
  show ?case by simp
next
  case (Cons d ds)
  from assms(3) [of d] Cons show ?case
    by (auto simp: assms(2))
qed

lemma mkdir_all_can_make: "can_make w ds \<Longrightarrow> \<exists>w1. mkdir_all w ds = (w1, None)"
proof (induction ds arbitrary: w)
  case Nil
  show ?case by simp
next
  case (Cons d ds)
  show ?case
  proof (cases "nodes w d")
    case None
    let ?w = "w\<lparr>nodes := (nodes w)(d \<mapsto> Dir)\<rparr>"
    from Cons.prems None have free: "\<not> locked w (dirname d)" and rest: "can_make w ds"
      by simp_all
    have "can_make ?w ds"
      using rest by (rule can_make_more) (auto simp: None)
    from Cons.IH [OF this] None free show ?thesis by simp
  next
    case (Some n)
    with Cons.prems have "n = Dir" "can_make w ds" by simp_all
    with Cons.IH [of w] Some show ?thesis by simp
  qed
qed

lemma prepared_can_save:
  assumes "can_save w p"
  shows "\<exists>w1. prepared w (dirname p) = (w1, None) \<and> locked w1 = locked w
           \<and> (\<forall>q\<in>set (ancestors p). nodes w1 q = Some Dir)
           \<and> nodes w1 p = nodes w p \<and> nodes w1 (origin p) = Some Dir"
proof -
  from assms have plain: "plain_path p" and make: "can_make w (ancestors p)"
    and start: "nodes w (origin p) = Some Dir"
    by (simp_all add: can_save_def)
  from plain have below: "ancestors p = ancestors (dirname p) @ [dirname p]"
    using plain_path_below [of p] by (simp add: ancestors_below)
  show ?thesis
  proof (cases "existsSync w (dirname p)")
    case True
    then have above: "\<forall>q\<in>set (ancestors (dirname p)). nodes w q = Some Dir"
      and there: "nodes w (dirname p) \<noteq> None"
      by (simp_all add: existsSync_def walk_None)
    from can_make_member [OF make, of "dirname p"] there below
    have "nodes w (dirname p) = Some Dir" by simp
    with above below have "\<forall>q\<in>set (ancestors p). nodes w q = Some Dir" by simp
    with True start show ?thesis by (simp add: prepared_def)
  next
    case False
    from mkdir_all_can_make [OF make] obtain w1 where w1: "mkdir_all w (ancestors p) = (w1, None)"
      by blast
    then have prep: "prepared w (dirname p) = (w1, None)"
      using False below by (simp add: prepared_def mkdirSync_def)
    have same: "nodes w1 p = nodes w p"
      using mkdir_all_nodes [OF w1, of p] not_above_itself [of p] by auto
    have top: "nodes w1 (origin p) = Some Dir"
      using mkdir_all_nodes [OF w1, of "origin p"] start by auto
    from prep mkdir_all_keeps [OF w1] mkdir_all_done [OF w1] same top show ?thesis
      by simp
  qed
qed

lemma save_can_save:
  assumes "can_save w p" "filePath s = p"
  shows "nodes (save w s) p = Some (File (JSON_stringify (Object_fromEntries (items s))))"
    and "walk (save w s) (ancestors p) = None"
    and "can_save (save w s) p"
proof -
  let ?text = "JSON_stringify (Object_fromEntries (items s))"
  from prepared_can_save [OF assms(1)] obtain w1 where
    prep: "prepared w (dirname p) = (w1, None)" and lock: "locked w1 = locked w"
    and dirs: "\<forall>q\<in>set (ancestors p). nodes w1 q = Some Dir"
    and same: "nodes w1 p = nodes w p" and top: "nodes w1 (origin p) = Some Dir"
    by blast
  from assms(1) have plain: "plain_path p" and nodir: "nodes w p \<noteq> Some Dir"
    and free: "\<not> locked w p" "\<not> locked w (dirname p)"
    by (simp_all add: can_save_def)
  let ?w2 = "w1\<lparr>nodes := (nodes w1)(p \<mapsto> File ?text)\<rparr>"
  have "writeFileSync w1 p ?text = Inr ?w2"
    using dirs same nodir free lock by (simp add: writeFileSync_Inr walk_None)
  then have eq: "save w s = ?w2"
    using prep by (simp add: save_prepared assms(2))
  show "nodes (save w s) p = Some (File ?text)"
    by (simp add: eq)
  have dirs2: "\<forall>q\<in>set (ancestors p). nodes ?w2 q = Some Dir"
    using dirs not_above_itself [of p] by auto
  then show "walk (save w s) (ancestors p) = None"
    unfolding eq by (simp only: walk_None)
  have "can_make ?w2 (ancestors p)"
    using dirs2 by (rule can_make_directories)
  moreover have "nodes ?w2 (origin p) = Some Dir"
    using top origin_not_path [OF plain] by simp
  ultimately show "can_save (save w s) p"
    unfolding eq using plain free lock by (simp add: can_save_def)
qed

lemma FilePlaidItemStore_after_save:
  assumes "can_save w p" "filePath s = p" "distinct (map fst (items s))" "only_items s"
  shows "FilePlaidItemStore (save w s) p = Returns s"
proof -
  have same: "\<lparr>items = items s, filePath = p\<rparr> = s"
    using assms(2) by simp
  have "load_try (save w s) p = Returns (Some (items s))"
    using save_can_save [OF assms(1,2)] assms(3,4)
    by (intro load_try_written) (simp_all add: can_save_def same)
  then show ?thesis
    using assms(2) by (simp add: FilePlaidItemStore_def load_def)
qed

subsection \<open>The writing methods\<close>

lemma list_all_update:
  "list_all P (map snd al) \<Longrightarrow> P v \<Longrightarrow> list_all P (map snd (AList.update k v al))"
  by (induction al) auto

lemma list_all_delete:
  "list_all P (map snd al) \<Longrightarrow> list_all P (map snd (AList.delete k al))"
  by (induction al) auto

lemma only_items_update:
  "only_items s \<Longrightarrow> only_items (s\<lparr>items := AList.update k (Item item) (items s)\<rparr>)"
  by (simp add: only_items_def list_all_update)

lemma only_items_delete:
  "only_items s \<Longrightarrow> only_items (s\<lparr>items := AList.delete k (items s)\<rparr>)"
  by (simp add: only_items_def list_all_delete)

lemma only_items_lookup:
  assumes "only_items s" "map_of (items s) k = Some e"
  shows "\<exists>item. e = Item item"
proof -
  from assms(2) have "(k, e) \<in> set (items s)" by (rule map_of_SomeD)
  with assms(1) show ?thesis by (auto simp: only_items_iff)
qed

lemma perform_cases:
  assumes "distinct (map fst (items s))" "only_items s"
  shows "perform m (w, s) = Inr (w, s)
    \<or> (\<exists>its. distinct (map fst its) \<and> only_items (s\<lparr>items := its\<rparr>)
          \<and> perform m (w, s) = Inr (save w (s\<lparr>items := its\<rparr>), s\<lparr>items := its\<rparr>))"
proof -
  have upd: "updateItem now k u (w, s) = Inr (w, s)
    \<or> (\<exists>its. distinct (map fst its) \<and> only_items (s\<lparr>items := its\<rparr>)
          \<and> updateItem now k u (w, s) = Inr (save w (s\<lparr>items := its\<rparr>), s\<lparr>items := its\<rparr>))"
    for now k u
  proof (cases "map_of (items s) k")
    case None
    then show ?thesis by (simp add: updateItem_def)
  next
    case (Some e)
    with assms(2) obtain old where old: "e = Item old"
      using only_items_lookup by blast
    let ?its = "AList.update k (Item ((spread old u)\<lparr>updatedAt := now\<rparr>)) (items s)"
    have "distinct (map fst ?its)" using assms(1) by (simp add: distinct_update)
    moreover have "only_items (s\<lparr>items := ?its\<rparr>)"
      using assms(2) by (rule only_items_update)
    moreover have "updateItem now k u (w, s) = Inr (save w (s\<lparr>items := ?its\<rparr>), s\<lparr>items := ?its\<rparr>)"
      using Some old by (simp add: updateItem_def Let_def)
    ultimately show ?thesis by blast
  qed
  show ?thesis
  proof (cases m)
    case (SaveItem item)
    let ?its = "AList.update (itemId item) (Item item) (items s)"
    have "distinct (map fst ?its)" using assms(1) by (simp add: distinct_update)
    moreover have "only_items (s\<lparr>items := ?its\<rparr>)"
      using assms(2) by (rule only_items_update)
    moreover have "perform m (w, s) = Inr (save w (s\<lparr>items := ?its\<rparr>), s\<lparr>items := ?its\<rparr>)"
      by (simp add: SaveItem saveItem_def Let_def)
    ultimately show ?thesis by blast
  next
    case (DeleteItem k)
    let ?its = "AList.delete k (items s)"
    have "distinct (map fst ?its)" using assms(1) by (simp add: distinct_delete)
    moreover have "only_items (s\<lparr>items := ?its\<rparr>)"
      using assms(2) by (rule only_items_delete)
    moreover have "perform m (w, s) = Inr (save w (s\<lparr>items := ?its\<rparr>), s\<lparr>items := ?its\<rparr>)"
      by (simp add: DeleteItem deleteItem_def Let_def)
    ultimately show ?thesis by blast
  next
    case (UpdateItem now k u)
    then show ?thesis using upd [of now k u] by simp
  next
    case (UpdateSyncCursor now later k c)
    then show ?thesis
      using upd [of later k] by (simp add: updateSyncCursor_def)
  next
    case (UpdateStatus now k st)
    then show ?thesis
      using upd [of now k] by (simp add: updateStatus_def)
  qed
qed

lemma perform_keeps_file:
  assumes "FilePlaidItemStore w p = Returns s" "only_items s" "can_save w p"
  shows "\<exists>w' s'. perform m (w, s) = Inr (w', s')
           \<and> FilePlaidItemStore w' p = Returns s' \<and> only_items s' \<and> can_save w' p"
proof -
  from assms(1) have s: "filePath s = p" "distinct (map fst (items s))"
    by (simp_all add: FilePlaidItemStore_filePath)
  from perform_cases [OF s(2) assms(2), of m w] show ?thesis
  proof
    assume "perform m (w, s) = Inr (w, s)"
    with assms show ?thesis by simp
  next
    assume "\<exists>its. distinct (map fst its) \<and> only_items (s\<lparr>items := its\<rparr>)
      \<and> perform m (w, s) = Inr (save w (s\<lparr>items := its\<rparr>), s\<lparr>items := its\<rparr>)"
    then obtain its where its: "distinct (map fst its)" "only_items (s\<lparr>items := its\<rparr>)"
      "perform m (w, s) = Inr (save w (s\<lparr>items := its\<rparr>), s\<lparr>items := its\<rparr>)"
      by blast
    have "FilePlaidItemStore (save w (s\<lparr>items := its\<rparr>)) p = Returns (s\<lparr>items := its\<rparr>)"
      using assms(3) s(1) its(1,2) by (intro FilePlaidItemStore_after_save) simp_all
    moreover have "can_save (save w (s\<lparr>items := its\<rparr>)) p"
      using assms(3) s(1) by (intro save_can_save) simp_all
    ultimately show ?thesis using its(2,3) by simp
  qed
qed

lemma perform_all_keeps_file:
  assumes "FilePlaidItemStore w p = Returns s" "only_items s" "can_save w p"
  shows "\<exists>w' s'. perform_all ms (w, s) = Inr (w', s')
           \<and> FilePlaidItemStore w' p = Returns s' \<and> only_items s' \<and> can_save w' p"
  using assms
proof (induction ms arbitrary: w s)
  case Nil
  then show ?case by simp
next
  case (Cons m ms)
  from perform_keeps_file [OF Cons.prems, of m] obtain w1 s1 where
    step: "perform m (w, s) = Inr (w1, s1)" "FilePlaidItemStore w1 p = Returns s1"
      "only_items s1" "can_save w1 p"
    by blast
  from Cons.IH [OF step(2,3,4)] step(1) show ?case by simp
qed

text \<open>
  C2. Take a store of items constructed over a file that can be written: a plain path
  whose directories are there or can be made, as \<open>can_save\<close> says. After any sequence
  of \<open>saveItem\<close>, \<open>updateSyncCursor\<close>, \<open>updateItem\<close>, \<open>updateStatus\<close> and
  \<open>deleteItem\<close> calls, none of which throws, a new store constructed from the file they
  leave has the same item records as the store in memory, field for field, up to their
  order; the keys of the store are distinct and its values are items.
\<close>

theorem store_round_trip:
  assumes "FilePlaidItemStore w p = Returns s" and "only_items s" and "can_save w p"
  shows "\<exists>w' s' s''. perform_all ms (w, s) = Inr (w', s')
           \<and> FilePlaidItemStore w' p = Returns s''
           \<and> mset (getAllItems s'') = mset (getAllItems s')
           \<and> distinct (map fst (items s')) \<and> only_items s'"
proof -
  from perform_all_keeps_file [OF assms, of ms] obtain w' s' where
    "perform_all ms (w, s) = Inr (w', s')" "FilePlaidItemStore w' p = Returns s'"
    "only_items s'"
    by blast
  then show ?thesis
    using FilePlaidItemStore_filePath [of w' p s'] by auto
qed

lemma FilePlaidItemStore_restart_run:
  "FilePlaidItemStore restart_run store_path = Returns synced_store"
proof -
  have "load_try restart_run store_path = Returns (Some (items synced_store))"
  proof (rule load_try_written)
    show "nodes restart_run store_path
        = Some (File (JSON_stringify (Object_fromEntries (items synced_store))))"
      by (simp add: restart_run_def)
    show "walk restart_run (ancestors store_path) = None"
      by (simp add: ancestors_store_path restart_run_def later_run_def first_run_def)
         (simp add: store_path_def)
    show "\<not> locked restart_run store_path"
      by (simp add: restart_run_def later_run_def first_run_def)
    show "distinct (map fst (items synced_store))"
      by (simp add: synced_store_def)
    show "only_items \<lparr>items = items synced_store, filePath = store_path\<rparr>"
      by (simp add: only_items_def synced_store_def)
  qed
  then show ?thesis
    by (simp add: FilePlaidItemStore_def load_def synced_store_def)
qed

theorem store_round_trip_witness:
  "FilePlaidItemStore first_run store_path = Returns new_store
   \<and> only_items new_store
   \<and> can_save first_run store_path
   \<and> (\<exists>w' s' s''. perform_all session (first_run, new_store) = Inr (w', s')
         \<and> getAllItems s'
             = [Item (synced_item\<lparr>updatedAt := ''2024-03-01T10:00:00.001Z''\<rparr>), Item second_item]
         \<and> FilePlaidItemStore w' store_path = Returns s''
         \<and> mset (getAllItems s'') = mset (getAllItems s'))
   \<and> FilePlaidItemStore restart_run store_path = Returns synced_store
   \<and> only_items synced_store
   \<and> can_save restart_run store_path
   \<and> (\<exists>w' s' s''. perform_all second_session (restart_run, synced_store) = Inr (w', s')
         \<and> getAllItems s' = [Item second_item]
         \<and> FilePlaidItemStore w' store_path = Returns s''
         \<and> mset (getAllItems s'') = mset (getAllItems s'))"
proof -
  have fresh: "FilePlaidItemStore first_run store_path = Returns new_store"
    using existsSync_first_run
    by (simp add: FilePlaidItemStore_def load_def load_try_def new_store_def)
  have none: "only_items new_store"
    by (simp add: only_items_def new_store_def)
  have writable: "can_save first_run store_path"
    by (simp add: can_save_def plain_store_path ancestors_store_path dirname_store_path
        first_run_def origin_def)
       (simp add: store_path_def)
  have "\<exists>w'. perform_all session (first_run, new_store)
      = Inr (w', new_store\<lparr>items := [(''item-1'', Item (synced_item\<lparr>updatedAt := ''2024-03-01T10:00:00.001Z''\<rparr>)),
                                      (''item-2'', Item second_item)]\<rparr>)"
    by (simp add: session_def saveItem_def updateSyncCursor_def updateItem_def Let_def
        new_store_def sandbox_item_def second_item_def synced_item_def spread_def
        no_updates_def or_else_def)
  with store_round_trip [OF fresh none writable, of session] fresh none writable
  have first: "FilePlaidItemStore first_run store_path = Returns new_store
   \<and> only_items new_store
   \<and> can_save first_run store_path
   \<and> (\<exists>w' s' s''. perform_all session (first_run, new_store) = Inr (w', s')
         \<and> getAllItems s'
             = [Item (synced_item\<lparr>updatedAt := ''2024-03-01T10:00:00.001Z''\<rparr>), Item second_item]
         \<and> FilePlaidItemStore w' store_path = Returns s''
         \<and> mset (getAllItems s'') = mset (getAllItems s'))"
    by (auto simp: getAllItems_def)
  have one: "only_items synced_store"
    by (simp add: only_items_def synced_store_def)
  have again: "can_save restart_run store_path"
    by (simp add: can_save_def plain_store_path ancestors_store_path dirname_store_path
        restart_run_def later_run_def first_run_def origin_def)
       (simp add: store_path_def)
  have "\<exists>w'. perform_all second_session (restart_run, synced_store)
      = Inr (w', synced_store\<lparr>items := [(''item-2'', Item second_item)]\<rparr>)"
    by (simp add: second_session_def saveItem_def updateStatus_def updateItem_def deleteItem_def
        Let_def synced_store_def sandbox_item_def second_item_def synced_item_def spread_def
        no_updates_def or_else_def)
  with store_round_trip [OF FilePlaidItemStore_restart_run one again, of second_session]
    FilePlaidItemStore_restart_run one again
  have second: "FilePlaidItemStore restart_run store_path = Returns synced_store
   \<and> only_items synced_store
   \<and> can_save restart_run store_path
   \<and> (\<exists>w' s' s''. perform_all second_session (restart_run, synced_store) = Inr (w', s')
         \<and> getAllItems s' = [Item second_item]
         \<and> FilePlaidItemStore w' store_path = Returns s''
         \<and> mset (getAllItems s'') = mset (getAllItems s'))"
    by (auto simp: getAllItems_def)
  from first second show ?thesis
    by (simp only: simp_thms)
qed

text \<open>
  Where \<^verbatim>\<open>/home/u\<close> is a regular file the path cannot be written: \<open>save\<close> only logs
  a warning, and a store constructed afterwards is empty. A path that ends in a
  separator is not a plain one.
\<close>

lemma blocked_run_not_writable:
  "\<not> can_save blocked_run store_path
   \<and> save blocked_run (new_store\<lparr>items := [(''item-1'', Item sandbox_item)]\<rparr>)
       = console_error blocked_run ''[WARN] Failed to save Plaid items: ENOTDIR''
   \<and> FilePlaidItemStore
       (save blocked_run (new_store\<lparr>items := [(''item-1'', Item sandbox_item)]\<rparr>)) store_path
       = Returns new_store"
proof -
  have above: "ancestors ''/home/u/.boa-parser'' = [''/'', ''/home'', ''/home/u'']"
    by (simp add: ancestors_below dirname_def)
  have no: "\<not> can_save blocked_run store_path"
    by (simp add: can_save_def ancestors_store_path blocked_run_def)
  have absent: "\<not> existsSync blocked_run ''/home/u/.boa-parser''"
    by (simp add: existsSync_def above blocked_run_def)
  have made: "mkdirSync blocked_run ''/home/u/.boa-parser''
      = (blocked_run, Some (SystemError ''ENOTDIR''))"
    by (simp add: mkdirSync_def above blocked_run_def)
  have logged: "save blocked_run (new_store\<lparr>items := [(''item-1'', Item sandbox_item)]\<rparr>)
      = console_error blocked_run ''[WARN] Failed to save Plaid items: ENOTDIR''"
    by (simp add: save_def new_store_def dirname_store_path absent made warning_def)
  have "\<not> existsSync (console_error blocked_run l) store_path" for l
    by (simp add: existsSync_def ancestors_store_path blocked_run_def console_error_def)
  then show ?thesis
    using no logged
    by (simp add: FilePlaidItemStore_def load_def load_try_def new_store_def)
qed

lemma trailing_separator_not_plain:
  "\<not> plain_path ''/home/u/.boa-parser/'' \<and> \<not> can_save w ''/home/u/.boa-parser/''"
  by (simp add: can_save_def plain_path_def)


end
